theory Spec2Isabelle
  imports Complex_Main
begin

section \<open>The array backend: floating-point values, arrays, errors\<close>

text \<open>
  The source computes on numpy arrays of IEEE doubles. A value is a finite number, one of
  the two infinities, or not-a-number. Finite arithmetic is idealised: a finite result is
  the exact real (no rounding, no overflow, no signed zero); the special values follow the
  IEEE rules the source relies on (\<open>-inf - (-inf)\<close> is not-a-number, every comparison
  with not-a-number is false, \<open>log 0 = -inf\<close>, \<open>exp (-inf) = 0\<close>).
\<close>

datatype fl = Fin real | PInf | NInf | NaN

datatype error = IndexError | ValueError | ZeroDivisionError

type_synonym 'a result = "error + 'a"

definition ebind :: "'a result \<Rightarrow> ('a \<Rightarrow> 'b result) \<Rightarrow> 'b result" where
  "ebind r f = (case r of Inl e \<Rightarrow> Inl e | Inr v \<Rightarrow> f v)"

definition isnan :: "fl \<Rightarrow> bool" where
  "isnan x = (x = NaN)"

fun flt :: "fl \<Rightarrow> fl \<Rightarrow> bool" where
  "flt (Fin a) (Fin b) = (a < b)"
| "flt (Fin a) PInf = True"
| "flt NInf (Fin b) = True"
| "flt NInf PInf = True"
| "flt x y = False"

fun feq :: "fl \<Rightarrow> fl \<Rightarrow> bool" where
  "feq (Fin a) (Fin b) = (a = b)"
| "feq PInf PInf = True"
| "feq NInf NInf = True"
| "feq x y = False"

definition fle :: "fl \<Rightarrow> fl \<Rightarrow> bool" where
  "fle x y = (flt x y \<or> feq x y)"

definition fgt :: "fl \<Rightarrow> fl \<Rightarrow> bool" where
  "fgt x y = flt y x"

definition fge :: "fl \<Rightarrow> fl \<Rightarrow> bool" where
  "fge x y = fle y x"

fun fneg :: "fl \<Rightarrow> fl" where
  "fneg (Fin a) = Fin (- a)"
| "fneg PInf = NInf"
| "fneg NInf = PInf"
| "fneg NaN = NaN"

fun fadd :: "fl \<Rightarrow> fl \<Rightarrow> fl" where
  "fadd (Fin a) (Fin b) = Fin (a + b)"
| "fadd NaN y = NaN"
| "fadd x NaN = NaN"
| "fadd PInf NInf = NaN"
| "fadd NInf PInf = NaN"
| "fadd PInf y = PInf"
| "fadd NInf y = NInf"
| "fadd x PInf = PInf"
| "fadd x NInf = NInf"

definition fsub :: "fl \<Rightarrow> fl \<Rightarrow> fl" where
  "fsub x y = fadd x (fneg y)"

text \<open>The sign of a value that is not not-a-number: \<open>-1\<close>, \<open>0\<close> or \<open>1\<close>
  (a zero counts as positive zero where a sign is needed).\<close>

fun fsgn :: "fl \<Rightarrow> real" where
  "fsgn (Fin a) = sgn a"
| "fsgn PInf = 1"
| "fsgn NInf = - 1"
| "fsgn NaN = 0"

definition inf_of_sign :: "real \<Rightarrow> fl" where
  "inf_of_sign s = (if s < 0 then NInf else PInf)"

fun fmul :: "fl \<Rightarrow> fl \<Rightarrow> fl" where
  "fmul (Fin a) (Fin b) = Fin (a * b)"
| "fmul NaN y = NaN"
| "fmul x NaN = NaN"
| "fmul x y = (if fsgn x * fsgn y = 0 then NaN else inf_of_sign (fsgn x * fsgn y))"

fun fdiv :: "fl \<Rightarrow> fl \<Rightarrow> fl" where
  "fdiv (Fin a) (Fin b) =
     (if b \<noteq> 0 then Fin (a / b) else if a = 0 then NaN else inf_of_sign a)"
| "fdiv NaN y = NaN"
| "fdiv x NaN = NaN"
| "fdiv (Fin a) y = Fin 0"
| "fdiv x (Fin b) = (if b < 0 then fneg x else x)"
| "fdiv x y = NaN"

fun fexp :: "fl \<Rightarrow> fl" where
  "fexp (Fin a) = Fin (exp a)"
| "fexp PInf = PInf"
| "fexp NInf = Fin 0"
| "fexp NaN = NaN"

fun flog :: "fl \<Rightarrow> fl" where
  "flog (Fin a) = (if 0 < a then Fin (ln a) else if a = 0 then NInf else NaN)"
| "flog PInf = PInf"
| "flog NInf = NaN"
| "flog NaN = NaN"

definition flog1p :: "fl \<Rightarrow> fl" where
  "flog1p x = flog (fadd (Fin 1) x)"

definition is_int :: "real \<Rightarrow> bool" where
  "is_int e = (e = of_int \<lfloor>e\<rfloor>)"

definition odd_int :: "real \<Rightarrow> bool" where
  "odd_int e = (is_int e \<and> odd \<lfloor>e\<rfloor>)"

text \<open>\<open>power\<close> of the backend (C \<open>pow\<close>): \<open>pow(x, 0) = 1\<close> and \<open>pow(1, y) = 1\<close>
  for every operand, a negative base with a fractional exponent is not-a-number.\<close>

fun fpow :: "fl \<Rightarrow> fl \<Rightarrow> fl" where
  "fpow (Fin b) (Fin e) =
     (if e = 0 \<or> b = 1 then Fin 1
      else if 0 < b then Fin (b powr e)
      else if b = 0 then (if 0 < e then Fin 0 else PInf)
      else if is_int e then Fin ((if odd_int e then - 1 else 1) * (\<bar>b\<bar> powr e))
      else NaN)"
| "fpow NaN (Fin e) = (if e = 0 then Fin 1 else NaN)"
| "fpow (Fin b) NaN = (if b = 1 then Fin 1 else NaN)"
| "fpow (Fin b) PInf =
     (if \<bar>b\<bar> = 1 then Fin 1 else if \<bar>b\<bar> < 1 then Fin 0 else PInf)"
| "fpow (Fin b) NInf =
     (if \<bar>b\<bar> = 1 then Fin 1 else if \<bar>b\<bar> < 1 then PInf else Fin 0)"
| "fpow PInf (Fin e) = (if e = 0 then Fin 1 else if e < 0 then Fin 0 else PInf)"
| "fpow NInf (Fin e) =
     (if e = 0 then Fin 1 else if e < 0 then Fin 0
      else if odd_int e then NInf else PInf)"
| "fpow PInf PInf = PInf"
| "fpow NInf PInf = PInf"
| "fpow PInf NInf = Fin 0"
| "fpow NInf NInf = Fin 0"
| "fpow x y = NaN"

text \<open>\<open>logaddexp\<close> of the backend, as numpy computes it.\<close>

definition logaddexp :: "fl \<Rightarrow> fl \<Rightarrow> fl" where
  "logaddexp x y =
     (if feq x y then fadd x (Fin (ln 2))
      else let tmp = fsub x y in
        if fgt tmp (Fin 0) then fadd x (flog1p (fexp (fneg tmp)))
        else if fle tmp (Fin 0) then fadd y (flog1p (fexp tmp))
        else tmp)"

text \<open>Division of two Python floats raises on a zero divisor; numpy's division does not.\<close>

definition pydiv :: "fl \<Rightarrow> fl \<Rightarrow> fl result" where
  "pydiv a b = (if b = Fin 0 then Inl ZeroDivisionError else Inr (fdiv a b))"

text \<open>Python's builtin \<open>min(a, b)\<close> and \<open>max(a, b)\<close>: the first argument unless the
  second is strictly smaller (larger).\<close>

definition pymin :: "fl \<Rightarrow> fl \<Rightarrow> fl" where
  "pymin a b = (if flt b a then b else a)"

definition pymax :: "fl \<Rightarrow> fl \<Rightarrow> fl" where
  "pymax a b = (if fgt b a then b else a)"

subsection \<open>One-dimensional arrays\<close>

text \<open>An array is a list. \<open>y[mask] = v\<close> needs a mask of the shape of \<open>y\<close>
  (numpy raises IndexError otherwise); an elementwise operation of two arrays broadcasts
  an array of one element and raises ValueError on any other mismatch.\<close>

definition setitem_mask :: "'a list \<Rightarrow> bool list \<Rightarrow> 'a \<Rightarrow> 'a list result" where
  "setitem_mask y msk v =
     (if length msk = length y then Inr (map2 (\<lambda>yi m. if m then v else yi) y msk)
      else Inl IndexError)"

definition broadcast2 :: "('a \<Rightarrow> 'b \<Rightarrow> 'c) \<Rightarrow> 'a list \<Rightarrow> 'b list \<Rightarrow> 'c list result" where
  "broadcast2 f a b =
     (if length a = length b then Inr (map2 f a b)
      else if length a = 1 then Inr (map (f (hd a)) b)
      else if length b = 1 then Inr (map (\<lambda>x. f x (hd b)) a)
      else Inl ValueError)"

section \<open>The window function\<close>

text \<open>\<open>nan_to_num\<close> of the backend: not-a-number becomes \<open>0\<close>, an infinity the
  largest finite double of its sign.\<close>

definition float_max :: real where
  "float_max = (2 - 1 / 2 ^ 52) * 2 ^ 1023"

fun nan_to_num :: "fl \<Rightarrow> fl" where
  "nan_to_num (Fin a) = Fin a"
| "nan_to_num PInf = Fin float_max"
| "nan_to_num NInf = Fin (- float_max)"
| "nan_to_num NaN = Fin 0"

text \<open>\<open>_S_factor(mass, mmin, delta_m)\<close> for an array \<open>mass\<close> and scalars \<open>mmin\<close>,
  \<open>delta_m\<close>. The two final assignments run in the order of the source: zero first,
  one second.\<close>

definition S_factor :: "fl list \<Rightarrow> fl \<Rightarrow> fl \<Rightarrow> fl list result" where
  "S_factor mass mmin delta_m =
     (let to_ret = map (\<lambda>_. Fin 1) mass in
      if feq delta_m (Fin 0) then Inr to_ret
      else
        let mprime = map (\<lambda>m. fsub m mmin) mass;
            select_window = map (\<lambda>m. fgt m mmin \<and> flt m (fadd delta_m mmin)) mass;
            select_one = map (\<lambda>m. fge m (fadd delta_m mmin)) mass;
            select_zero = map (\<lambda>m. fle m mmin) mass;
            effe_prime = map2 (\<lambda>mp w.
                if w then fexp (nan_to_num (fadd (fdiv delta_m mp) (fdiv delta_m (fsub mp delta_m))))
                else Fin 1) mprime select_window;
            to_ret1 = map (\<lambda>e. fdiv (Fin 1) (fadd e (Fin 1))) effe_prime
        in ebind (setitem_mask to_ret1 select_zero (Fin 0)) (\<lambda>t.
             setitem_mask t select_one (Fin 1)))"

section \<open>basic_1dimpdf\<close>

text \<open>The base class holds the two bounds. A subclass supplies the kernels \<open>_log_pdf\<close>
  and \<open>_log_cdf\<close> (here \<open>raw_log_pdf\<close>, \<open>raw_log_cdf\<close>: an Isabelle name cannot start
  with an underscore); the method table of a class is passed to the base-class methods,
  which is how the dynamic dispatch of \<open>self._log_pdf(x)\<close> is resolved.\<close>

record basic_1dimpdf =
  minval :: fl
  maxval :: fl

record 'o methods =
  raw_log_pdf :: "'o \<Rightarrow> fl list \<Rightarrow> fl list result"
  raw_log_cdf :: "'o \<Rightarrow> fl list \<Rightarrow> fl list result"

definition check_bound_pdf ::
  "'a basic_1dimpdf_scheme \<Rightarrow> fl list \<Rightarrow> fl list \<Rightarrow> fl list result" where
  "check_bound_pdf self x y =
     setitem_mask y (map (\<lambda>xi. flt xi (minval self) \<or> fgt xi (maxval self)) x) NInf"

text \<open>\<open>y[x<self.minval],y[x>self.maxval]=-xp.inf,0.\<close> assigns left to right: the
  second assignment wins where both masks hold.\<close>

definition check_bound_cdf ::
  "'a basic_1dimpdf_scheme \<Rightarrow> fl list \<Rightarrow> fl list \<Rightarrow> fl list result" where
  "check_bound_cdf self x y =
     ebind (setitem_mask y (map (\<lambda>xi. flt xi (minval self)) x) NInf)
       (\<lambda>y1. setitem_mask y1 (map (\<lambda>xi. fgt xi (maxval self)) x) (Fin 0))"

definition log_pdf ::
  "'a basic_1dimpdf_scheme methods \<Rightarrow> 'a basic_1dimpdf_scheme \<Rightarrow> fl list \<Rightarrow> fl list result" where
  "log_pdf M self x = ebind (raw_log_pdf M self x) (\<lambda>y. check_bound_pdf self x y)"

definition log_cdf ::
  "'a basic_1dimpdf_scheme methods \<Rightarrow> 'a basic_1dimpdf_scheme \<Rightarrow> fl list \<Rightarrow> fl list result" where
  "log_cdf M self x = ebind (raw_log_cdf M self x) (\<lambda>y. check_bound_cdf self x y)"

definition pdf ::
  "'a basic_1dimpdf_scheme methods \<Rightarrow> 'a basic_1dimpdf_scheme \<Rightarrow> fl list \<Rightarrow> fl list result" where
  "pdf M self x = ebind (log_pdf M self x) (\<lambda>y. Inr (map fexp y))"

definition cdf ::
  "'a basic_1dimpdf_scheme methods \<Rightarrow> 'a basic_1dimpdf_scheme \<Rightarrow> fl list \<Rightarrow> fl list result" where
  "cdf M self x = ebind (log_cdf M self x) (\<lambda>y. Inr (map fexp y))"

section \<open>PowerLaw\<close>

definition PL_normfact :: "fl \<Rightarrow> fl \<Rightarrow> fl \<Rightarrow> fl result" where
  "PL_normfact minpl maxpl alpha =
     (if feq alpha (Fin (- 1)) then ebind (pydiv maxpl minpl) (\<lambda>q. Inr (flog q))
      else Inr (fdiv (fsub (fpow maxpl (fadd alpha (Fin 1))) (fpow minpl (fadd alpha (Fin 1))))
                  (fadd alpha (Fin 1))))"

record PowerLaw = basic_1dimpdf +
  minpl :: fl
  maxpl :: fl
  alpha :: fl
  norm_fact :: fl

definition PowerLaw_init :: "fl \<Rightarrow> fl \<Rightarrow> fl \<Rightarrow> PowerLaw result" where
  "PowerLaw_init mn mx a =
     ebind (PL_normfact mn mx a)
       (\<lambda>nf. Inr \<lparr>minval = mn, maxval = mx, minpl = mn, maxpl = mx, alpha = a, norm_fact = nf\<rparr>)"

definition PowerLaw_raw_log_pdf :: "PowerLaw \<Rightarrow> fl list \<Rightarrow> fl list result" where
  "PowerLaw_raw_log_pdf self x =
     Inr (map (\<lambda>xi. fsub (fmul (alpha self) (flog xi)) (flog (norm_fact self))) x)"

definition PowerLaw_raw_log_cdf :: "PowerLaw \<Rightarrow> fl list \<Rightarrow> fl list result" where
  "PowerLaw_raw_log_cdf self x =
     (if feq (alpha self) (Fin (- 1))
      then Inr (map (\<lambda>xi. flog (fdiv (flog (fdiv xi (minval self))) (norm_fact self))) x)
      else Inr (map (\<lambda>xi. flog (fdiv
                  (fdiv (fsub (fpow xi (fadd (alpha self) (Fin 1)))
                              (fpow (minpl self) (fadd (alpha self) (Fin 1))))
                        (fadd (alpha self) (Fin 1)))
                  (norm_fact self))) x))"

definition PowerLaw_methods :: "PowerLaw methods" where
  "PowerLaw_methods =
     \<lparr>raw_log_pdf = PowerLaw_raw_log_pdf, raw_log_cdf = PowerLaw_raw_log_cdf\<rparr>"

section \<open>TruncatedGaussian and PowerLawGaussian\<close>

text \<open>The error function belongs to the backend; the model takes it as a parameter
  \<open>erf\<close> on the reals and extends it to the special values.\<close>

fun ferf :: "(real \<Rightarrow> real) \<Rightarrow> fl \<Rightarrow> fl" where
  "ferf erf (Fin a) = Fin (erf a)"
| "ferf erf PInf = Fin 1"
| "ferf erf NInf = Fin (- 1)"
| "ferf erf NaN = NaN"

definition get_gaussian_norm :: "(real \<Rightarrow> real) \<Rightarrow> fl \<Rightarrow> fl \<Rightarrow> fl \<Rightarrow> fl \<Rightarrow> fl" where
  "get_gaussian_norm erf mng mxg mean sigma =
     (let max_point = fdiv (fsub mxg mean) (fmul sigma (Fin (sqrt 2)));
          min_point = fdiv (fsub mng mean) (fmul sigma (Fin (sqrt 2)))
      in fsub (fmul (Fin (1 / 2)) (ferf erf max_point)) (fmul (Fin (1 / 2)) (ferf erf min_point)))"

text \<open>The attribute \<open>norm_fact\<close> of a TruncatedGaussian is \<open>tg_norm_fact\<close> here (PowerLaw
  has an attribute of that name).\<close>

record TruncatedGaussian = basic_1dimpdf +
  meang :: fl
  sigmag :: fl
  ming :: fl
  maxg :: fl
  tg_norm_fact :: fl

definition TruncatedGaussian_init ::
  "(real \<Rightarrow> real) \<Rightarrow> fl \<Rightarrow> fl \<Rightarrow> fl \<Rightarrow> fl \<Rightarrow> TruncatedGaussian" where
  "TruncatedGaussian_init erf mean sigma mng mxg =
     \<lparr>minval = mng, maxval = mxg, meang = mean, sigmag = sigma, ming = mng, maxg = mxg,
      tg_norm_fact = get_gaussian_norm erf mng mxg mean sigma\<rparr>"

definition TruncatedGaussian_raw_log_pdf :: "TruncatedGaussian \<Rightarrow> fl list \<Rightarrow> fl list result" where
  "TruncatedGaussian_raw_log_pdf self x =
     Inr (map (\<lambda>xi.
       fsub (fsub (fsub (fneg (flog (sigmag self))) (fmul (Fin (1 / 2)) (flog (Fin (2 * pi)))))
                  (fmul (Fin (1 / 2)) (fpow (fdiv (fsub xi (meang self)) (sigmag self)) (Fin 2))))
            (flog (tg_norm_fact self))) x)"

definition TruncatedGaussian_raw_log_cdf ::
  "(real \<Rightarrow> real) \<Rightarrow> TruncatedGaussian \<Rightarrow> fl list \<Rightarrow> fl list result" where
  "TruncatedGaussian_raw_log_cdf erf self x =
     (let min_point = fdiv (fsub (ming self) (meang self)) (fmul (sigmag self) (Fin (sqrt 2)))
      in Inr (map (\<lambda>xi.
           let max_point = fdiv (fsub xi (meang self)) (fmul (sigmag self) (Fin (sqrt 2)))
           in flog (fdiv (fsub (fmul (Fin (1 / 2)) (ferf erf max_point))
                               (fmul (Fin (1 / 2)) (ferf erf min_point)))
                         (tg_norm_fact self))) x))"

definition TruncatedGaussian_methods :: "(real \<Rightarrow> real) \<Rightarrow> TruncatedGaussian methods" where
  "TruncatedGaussian_methods erf =
     \<lparr>raw_log_pdf = TruncatedGaussian_raw_log_pdf,
      raw_log_cdf = TruncatedGaussian_raw_log_cdf erf\<rparr>"

text \<open>PowerLawGaussian creates its two components itself and owns them. Its scalar
  attributes carry the prefix \<open>plg_\<close>.\<close>

record PowerLawGaussian = basic_1dimpdf +
  plg_minpl :: fl
  plg_maxpl :: fl
  plg_alpha :: fl
  plg_lambdag :: fl
  plg_meang :: fl
  plg_sigmag :: fl
  plg_ming :: fl
  plg_maxg :: fl
  PL :: PowerLaw
  TG :: TruncatedGaussian

definition PowerLawGaussian_init ::
  "(real \<Rightarrow> real) \<Rightarrow> fl \<Rightarrow> fl \<Rightarrow> fl \<Rightarrow> fl \<Rightarrow> fl \<Rightarrow> fl \<Rightarrow> fl \<Rightarrow> fl \<Rightarrow> PowerLawGaussian result" where
  "PowerLawGaussian_init erf mnpl mxpl a lam mean sigma mng mxg =
     ebind (PowerLaw_init mnpl mxpl a) (\<lambda>pl.
       Inr \<lparr>minval = pymin mnpl mng, maxval = pymax mxpl mxg,
            plg_minpl = mnpl, plg_maxpl = mxpl, plg_alpha = a, plg_lambdag = lam,
            plg_meang = mean, plg_sigmag = sigma, plg_ming = mng, plg_maxg = mxg,
            PL = pl, TG = TruncatedGaussian_init erf mean sigma mng mxg\<rparr>)"

definition PowerLawGaussian_raw_log_pdf ::
  "(real \<Rightarrow> real) \<Rightarrow> PowerLawGaussian \<Rightarrow> fl list \<Rightarrow> fl list result" where
  "PowerLawGaussian_raw_log_pdf erf self x =
     ebind (log_pdf PowerLaw_methods (PL self) x) (\<lambda>lp.
     ebind (log_pdf (TruncatedGaussian_methods erf) (TG self) x) (\<lambda>lt.
       broadcast2 logaddexp (map (fadd (flog1p (fneg (plg_lambdag self)))) lp)
                            (map (fadd (flog (plg_lambdag self))) lt)))"

definition PowerLawGaussian_raw_log_cdf ::
  "(real \<Rightarrow> real) \<Rightarrow> PowerLawGaussian \<Rightarrow> fl list \<Rightarrow> fl list result" where
  "PowerLawGaussian_raw_log_cdf erf self x =
     ebind (cdf PowerLaw_methods (PL self) x) (\<lambda>cp.
     ebind (cdf (TruncatedGaussian_methods erf) (TG self) x) (\<lambda>ct.
     ebind (broadcast2 fadd (map (fmul (fsub (Fin 1) (plg_lambdag self))) cp)
                            (map (fmul (plg_lambdag self)) ct)) (\<lambda>t.
       Inr (map flog t))))"

definition PowerLawGaussian_methods :: "(real \<Rightarrow> real) \<Rightarrow> PowerLawGaussian methods" where
  "PowerLawGaussian_methods erf =
     \<lparr>raw_log_pdf = PowerLawGaussian_raw_log_pdf erf,
      raw_log_cdf = PowerLawGaussian_raw_log_cdf erf\<rparr>"

section \<open>More of the array backend: linspace, sum, cumsum, piecewise\<close>

text \<open>\<open>linspace(start, stop, num)\<close>: \<open>start + k * step\<close> with
  \<open>step = (stop - start) / (num - 1)\<close>, and the last point set to \<open>stop\<close> itself.\<close>

definition linspace :: "fl \<Rightarrow> fl \<Rightarrow> nat \<Rightarrow> fl list" where
  "linspace start stop num =
     (if num = 0 then []
      else if num = 1 then [start]
      else map (\<lambda>k. fadd start (fmul (Fin (real k)) (fdiv (fsub stop start) (Fin (real (num - 1))))))
             [0..<num - 1] @ [stop])"

definition np_sum :: "fl list \<Rightarrow> fl" where
  "np_sum xs = foldl fadd (Fin 0) xs"

fun cumsum_from :: "fl \<Rightarrow> fl list \<Rightarrow> fl list" where
  "cumsum_from acc [] = []"
| "cumsum_from acc (x # xs) = fadd acc x # cumsum_from (fadd acc x) xs"

definition cumsum :: "fl list \<Rightarrow> fl list" where
  "cumsum xs = cumsum_from (Fin 0) xs"

text \<open>Reading \<open>xs[i]\<close> raises IndexError out of range (no negative index is used).\<close>

definition getitem :: "'a list \<Rightarrow> nat \<Rightarrow> 'a result" where
  "getitem xs i = (if i < length xs then Inr (xs ! i) else Inl IndexError)"

text \<open>\<open>piecewise(x, condlist, funclist)\<close>: the output starts as zeros; for each
  condition in turn, the elements where it holds are set to the scalar, or to the
  callable applied to the input there. A later condition overwrites an earlier one. One
  more function than conditions adds the condition "none of the others".\<close>

datatype pw_item = Scalar fl | Callable "fl \<Rightarrow> fl"

fun apply_item :: "pw_item \<Rightarrow> fl \<Rightarrow> fl" where
  "apply_item (Scalar v) xi = v"
| "apply_item (Callable f) xi = f xi"

definition setitem_mask_item :: "fl list \<Rightarrow> fl list \<Rightarrow> bool list \<Rightarrow> pw_item \<Rightarrow> fl list result" where
  "setitem_mask_item x y msk it =
     (if length msk = length y \<and> length x = length y
      then Inr (map (\<lambda>i. if msk ! i then apply_item it (x ! i) else y ! i) [0..<length y])
      else Inl IndexError)"

fun piecewise_loop :: "fl list \<Rightarrow> fl list \<Rightarrow> (bool list \<times> pw_item) list \<Rightarrow> fl list result" where
  "piecewise_loop x y [] = Inr y"
| "piecewise_loop x y ((c, f) # r) =
     ebind (setitem_mask_item x y c f) (\<lambda>y1. piecewise_loop x y1 r)"

definition piecewise :: "fl list \<Rightarrow> bool list list \<Rightarrow> pw_item list \<Rightarrow> fl list result" where
  "piecewise x condlist funclist =
     (if length funclist = length condlist
      then piecewise_loop x (map (\<lambda>_. Fin 0) x) (zip condlist funclist)
      else if length funclist = length condlist + 1
      then piecewise_loop x (map (\<lambda>_. Fin 0) x)
             (zip (condlist @ [map (\<lambda>i. \<not> (\<exists>c \<in> set condlist. i < length c \<and> c ! i)) [0..<length x]])
                  funclist)
      else Inl ValueError)"

section \<open>piecewise_constant_distribution_normalized and BinModel1d\<close>

text \<open>The attributes of \<open>piecewise_constant_distribution_normalized\<close> carry the prefix
  \<open>pc_\<close> (other classes have attributes of the same names). \<open>weights\<close> is a Python list of
  numbers; \<open>self.bins[1]\<close> raises when there is no bin.\<close>

record piecewise_constant_distribution_normalized =
  pc_dist_min :: fl
  pc_dist_max :: fl
  pc_n_bins :: nat
  pc_weights_with_boundaries :: "fl list"
  pc_bins :: "fl list"
  pc_bins_with_boundaries :: "fl list"
  pc_delta_bin :: fl
  pc_norm :: fl
  pc_weights_with_boundaries_normalized :: "fl list"
  pc_cumulated_normalized_weights :: "fl list"

definition piecewise_constant_distribution_normalized_init ::
  "fl \<Rightarrow> fl \<Rightarrow> fl list \<Rightarrow> piecewise_constant_distribution_normalized result" where
  "piecewise_constant_distribution_normalized_init dmin dmax weights =
     (let n = length weights;
          wwb = [Fin 0] @ weights @ [Fin 0];
          bins = linspace dmin dmax (n + 1);
          bwb = (NInf # bins) @ [PInf]
      in ebind (getitem bins 1) (\<lambda>b1.
         ebind (getitem bins 0) (\<lambda>b0.
         let delta = fsub b1 b0;
             nrm = fdiv (fmul (fdiv (Fin 1) (np_sum weights)) (Fin 1)) delta;
             wwbn = map (fmul nrm) wwb
         in Inr \<lparr>pc_dist_min = dmin, pc_dist_max = dmax, pc_n_bins = n,
                  pc_weights_with_boundaries = wwb, pc_bins = bins,
                  pc_bins_with_boundaries = bwb, pc_delta_bin = delta, pc_norm = nrm,
                  pc_weights_with_boundaries_normalized = wwbn,
                  pc_cumulated_normalized_weights = cumsum wwbn\<rparr>)))"

definition get_conditions ::
  "piecewise_constant_distribution_normalized \<Rightarrow> fl list \<Rightarrow> bool list list result" where
  "get_conditions self x =
     (if pc_n_bins self + 2 < length (pc_bins_with_boundaries self)
      then Inr (map (\<lambda>i. map (\<lambda>xi. fle (pc_bins_with_boundaries self ! i) xi
                                    \<and> flt xi (pc_bins_with_boundaries self ! (i + 1))) x)
                  [0..<pc_n_bins self + 2])
      else Inl IndexError)"

definition pc_pdf ::
  "piecewise_constant_distribution_normalized \<Rightarrow> fl list \<Rightarrow> fl list result" where
  "pc_pdf self x =
     ebind (get_conditions self x) (\<lambda>conditions.
       piecewise x conditions (map Scalar (pc_weights_with_boundaries_normalized self)))"

definition linear_function :: "fl \<Rightarrow> fl \<Rightarrow> fl \<Rightarrow> fl \<Rightarrow> fl" where
  "linear_function slope offset_x offset_y = (\<lambda>x. fadd (fmul slope (fsub x offset_x)) offset_y)"

definition pc_cdf ::
  "piecewise_constant_distribution_normalized \<Rightarrow> fl list \<Rightarrow> fl list result" where
  "pc_cdf self x =
     ebind (get_conditions self x) (\<lambda>conditions.
       if pc_n_bins self < length (pc_weights_with_boundaries_normalized self)
          \<and> pc_n_bins self \<le> length (pc_bins self)
          \<and> pc_n_bins self \<le> length (pc_cumulated_normalized_weights self)
       then piecewise x conditions
              ([Scalar (Fin 0)]
               @ map (\<lambda>i. Callable (linear_function
                       (pc_weights_with_boundaries_normalized self ! (i + 1))
                       (pc_bins self ! i)
                       (fmul (pc_cumulated_normalized_weights self ! i) (pc_delta_bin self))))
                   [0..<pc_n_bins self]
               @ [Scalar (Fin 1)])
       else Inl IndexError)"

record BinModel1d = basic_1dimpdf +
  bm_dist_min :: fl
  bm_dist_max :: fl
  bin_list :: "fl list"
  distribution :: piecewise_constant_distribution_normalized

definition BinModel1d_init :: "fl \<Rightarrow> fl \<Rightarrow> fl list \<Rightarrow> BinModel1d result" where
  "BinModel1d_init dmin dmax bl =
     ebind (piecewise_constant_distribution_normalized_init dmin dmax bl) (\<lambda>d.
       Inr \<lparr>minval = dmin, maxval = dmax, bm_dist_min = dmin, bm_dist_max = dmax,
            bin_list = bl, distribution = d\<rparr>)"

definition BinModel1d_raw_log_pdf :: "BinModel1d \<Rightarrow> fl list \<Rightarrow> fl list result" where
  "BinModel1d_raw_log_pdf self x =
     ebind (pc_pdf (distribution self) x) (\<lambda>p. Inr (map flog p))"

definition BinModel1d_raw_log_cdf :: "BinModel1d \<Rightarrow> fl list \<Rightarrow> fl list result" where
  "BinModel1d_raw_log_cdf self x =
     ebind (pc_cdf (distribution self) x) (\<lambda>c. Inr (map flog c))"

definition BinModel1d_methods :: "BinModel1d methods" where
  "BinModel1d_methods =
     \<lparr>raw_log_pdf = BinModel1d_raw_log_pdf, raw_log_cdf = BinModel1d_raw_log_cdf\<rparr>"

section \<open>piecewise_constant_2d_distribution_normalized\<close>

text \<open>A two-dimensional array is the list of its rows. \<open>triu_indices(n, k=0)\<close> lists
  the index pairs \<open>(r, c)\<close> with \<open>r \<le> c < n\<close> row by row. \<open>m[indices] = values\<close> assigns
  the values in the order of the index pairs; the values must be as many as the pairs,
  or a single one.\<close>

definition triu_indices :: "nat \<Rightarrow> (nat \<times> nat) list" where
  "triu_indices n = concat (map (\<lambda>r. map (\<lambda>c. (r, c)) [r..<n]) [0..<n])"

definition mat_get :: "'a list list \<Rightarrow> nat \<times> nat \<Rightarrow> 'a" where
  "mat_get m p = m ! fst p ! snd p"

definition mat_set :: "'a list list \<Rightarrow> nat \<times> nat \<Rightarrow> 'a \<Rightarrow> 'a list list" where
  "mat_set m p v = m[fst p := (m ! fst p)[snd p := v]]"

definition in_shape :: "'a list list \<Rightarrow> nat \<times> nat \<Rightarrow> bool" where
  "in_shape m p = (fst p < length m \<and> snd p < length (m ! fst p))"

definition setitem_indices ::
  "'a list list \<Rightarrow> (nat \<times> nat) list \<Rightarrow> 'a list \<Rightarrow> 'a list list result" where
  "setitem_indices m idx vals =
     (if \<not> list_all (in_shape m) idx then Inl IndexError
      else if length vals = length idx then Inr (fold (\<lambda>(p, v) m1. mat_set m1 p v) (zip idx vals) m)
      else if length vals = 1 then Inr (fold (\<lambda>p m1. mat_set m1 p (hd vals)) idx m)
      else Inl ValueError)"

text \<open>\<open>compute_norm\<close> reads \<open>self.n_bins_1d\<close>, \<open>self.weights\<close> and the two bin widths.\<close>

definition compute_norm :: "nat \<Rightarrow> fl list \<Rightarrow> fl \<Rightarrow> fl \<Rightarrow> fl result" where
  "compute_norm n_bins_1d weights delta_bin_x1 delta_bin_x2 =
     (let upper_triangle_indices = triu_indices n_bins_1d;
          zeros = replicate n_bins_1d (replicate n_bins_1d (Fin 0))
      in ebind (setitem_indices zeros upper_triangle_indices weights) (\<lambda>m.
           let m2 = fold (\<lambda>i m1. mat_set m1 (i, i) (fmul (mat_get m1 (i, i)) (Fin (1 / 2))))
                      [0..<n_bins_1d] m
           in Inr (fdiv (fdiv (fmul (fdiv (Fin 1) (np_sum (concat m2))) (Fin 1)) delta_bin_x1)
                        delta_bin_x2)))"

text \<open>The attributes that other classes also have carry the prefix \<open>pc2_\<close>.\<close>

record piecewise_constant_2d_distribution_normalized =
  pc2_dist_min :: fl
  pc2_dist_max :: fl
  pc2_n_bins :: nat
  n_bins_1d :: nat
  pc2_weights :: "fl list"
  grid_x1 :: "fl list"
  grid_x2 :: "fl list"
  delta_bin_x1 :: fl
  delta_bin_x2 :: fl
  pc2_norm :: fl
  weights_normalized :: "fl list"

definition piecewise_constant_2d_distribution_normalized_init ::
  "fl \<Rightarrow> fl \<Rightarrow> fl list \<Rightarrow> piecewise_constant_2d_distribution_normalized result" where
  "piecewise_constant_2d_distribution_normalized_init dmin dmax weights =
     (let nb = length weights;
          n1 = nat \<lfloor>- 1 / 2 + sqrt (1 / 4 + 2 * real nb)\<rfloor>;
          g1 = linspace dmin dmax (n1 + 1);
          g2 = linspace dmin dmax (n1 + 1)
      in ebind (getitem g1 1) (\<lambda>a1.
         ebind (getitem g1 0) (\<lambda>a0.
         ebind (getitem g2 1) (\<lambda>b1.
         ebind (getitem g2 0) (\<lambda>b0.
         ebind (compute_norm n1 weights (fsub a1 a0) (fsub b1 b0)) (\<lambda>nrm.
           Inr \<lparr>pc2_dist_min = dmin, pc2_dist_max = dmax, pc2_n_bins = nb, n_bins_1d = n1,
                pc2_weights = weights, grid_x1 = g1, grid_x2 = g2,
                delta_bin_x1 = fsub a1 a0, delta_bin_x2 = fsub b1 b0, pc2_norm = nrm,
                weights_normalized = map (fmul nrm) weights\<rparr>))))))"

text \<open>\<open>compute_flat_position\<close> on a grid position \<open>(n1, n2)\<close> (the bin of \<open>x1\<close>, the
  bin of \<open>x2\<close>), for whole numbers.\<close>

definition compute_flat_position :: "nat \<Rightarrow> nat \<times> nat \<Rightarrow> nat" where
  "compute_flat_position n1d position_in_grid =
     (fst position_in_grid + n1d * snd position_in_grid)
       - snd position_in_grid * (snd position_in_grid + 1) div 2"

section \<open>SplineWrapper\<close>

text \<open>\<open>CubicHermiteSpline\<close> belongs to scipy. The spline is represented by the arguments
  of the constructor call: the x-points, the y-points and the tangents
  (\<open>extrapolate = 0\<close> in every call).\<close>

datatype spline = CubicHermiteSpline "fl list" "fl list" "fl list"

text \<open>The constructor of scipy validates its arguments before it builds the spline, and
  raises ValueError when \<open>y\<close> and \<open>dydx\<close> differ in shape, when \<open>x\<close> has fewer than two
  elements, when \<open>x\<close> and \<open>y\<close> differ in length, when \<open>x\<close>, \<open>y\<close> or \<open>dydx\<close> holds a
  value that is not finite, and when \<open>x\<close> is not strictly increasing
  (\<open>dx = np.diff(x); np.any(dx <= 0)\<close>).\<close>

definition isfinite :: "fl \<Rightarrow> bool" where
  "isfinite x = (case x of Fin r \<Rightarrow> True | PInf \<Rightarrow> False | NInf \<Rightarrow> False | NaN \<Rightarrow> False)"

definition np_diff :: "fl list \<Rightarrow> fl list" where
  "np_diff x = map2 fsub (tl x) (butlast x)"

definition CubicHermiteSpline_init :: "fl list \<Rightarrow> fl list \<Rightarrow> fl list \<Rightarrow> spline result" where
  "CubicHermiteSpline_init x y dydx =
     (if length y \<noteq> length dydx then Inl ValueError
      else if length x < 2 then Inl ValueError
      else if length x \<noteq> length y then Inl ValueError
      else if \<not> list_all isfinite x then Inl ValueError
      else if \<not> list_all isfinite y then Inl ValueError
      else if \<not> list_all isfinite dydx then Inl ValueError
      else if list_ex (\<lambda>d. fle d (Fin 0)) (np_diff x) then Inl ValueError
      else Inr (CubicHermiteSpline x y dydx))"

definition SPLINE_OFFSET_SLOPE :: fl where
  "SPLINE_OFFSET_SLOPE = Fin (1 / 2)"

text \<open>\<open>for i in range(1, self.n_bins): y_points[i] = y_points[i-1] + self.delta_x * dy_dx[i-1]\<close>\<close>

fun y_points_loop :: "fl \<Rightarrow> fl list \<Rightarrow> nat list \<Rightarrow> fl list \<Rightarrow> fl list result" where
  "y_points_loop delta_x dy_dx [] y = Inr y"
| "y_points_loop delta_x dy_dx (i # r) y =
     (if 0 < i \<and> i < length y \<and> i - 1 < length dy_dx
      then y_points_loop delta_x dy_dx r
             (y[i := fadd (y ! (i - 1)) (fmul delta_x (dy_dx ! (i - 1)))])
      else Inl IndexError)"

text \<open>The method reads \<open>self.x_range_min\<close>, \<open>self.x_range_max\<close> and \<open>self.n_bins\<close>,
  sets \<open>self.delta_x\<close> and returns the spline; the model takes the three attributes as
  arguments and returns \<open>delta_x\<close> with the spline.\<close>

definition generate_spline_from_slope_list ::
  "fl \<Rightarrow> fl \<Rightarrow> nat \<Rightarrow> fl list \<Rightarrow> (fl \<times> spline) result" where
  "generate_spline_from_slope_list x_range_min x_range_max n_bins slope_list =
     (let x_points = linspace x_range_min x_range_max n_bins in
      ebind (getitem x_points 1) (\<lambda>x1.
      ebind (getitem x_points 0) (\<lambda>x0.
        let delta_x = fsub x1 x0;
            dy_dx0 = map (\<lambda>s. fadd s SPLINE_OFFSET_SLOPE) slope_list;
            dy_dx = map (\<lambda>d. fdiv d (fdiv (np_sum dy_dx0) (Fin (real n_bins)))) dy_dx0
        in ebind (y_points_loop delta_x dy_dx [1..<n_bins] x_points) (\<lambda>y_points.
           ebind (getitem y_points ((n_bins - 1) div 2)) (\<lambda>ymid.
           ebind (CubicHermiteSpline_init x_points (map (\<lambda>y. fsub y ymid) y_points) dy_dx)
             (\<lambda>spline. Inr (delta_x, spline)))))))"

text \<open>The part of \<open>SplineWrapper.__init__\<close> that builds the spline:
  \<open>x_range_min = -x_range\<close>, \<open>x_range_max = x_range\<close>, \<open>n_bins = len(slope_list)\<close>.\<close>

definition SplineWrapper_spline :: "fl list \<Rightarrow> fl \<Rightarrow> (fl \<times> spline) result" where
  "SplineWrapper_spline slope_list_in x_range =
     generate_spline_from_slope_list (fneg x_range) x_range (length slope_list_in) slope_list_in"

section \<open>conditional_2dimpdf\<close>

text \<open>
  Python objects are referred to by reference. The store maps an address to the object
  that lives there: its attributes and its class (the method table). The constructor of
  \<open>conditional_2dimpdf\<close> binds \<open>self.pdf1\<close> and \<open>self.pdf2\<close> to the objects it is
  given, so the two fields hold the addresses of the caller's objects; every method
  reads the objects through the store at the time of the call.
\<close>

type_synonym addr = nat

record 'o pyobj =
  attrs :: 'o
  klass :: "'o methods"

type_synonym 'o store = "addr \<Rightarrow> 'o pyobj"

record conditional_2dimpdf =
  pdf1 :: addr
  pdf2 :: addr

definition conditional_2dimpdf_init :: "addr \<Rightarrow> addr \<Rightarrow> conditional_2dimpdf" where
  "conditional_2dimpdf_init p1 p2 = \<lparr>pdf1 = p1, pdf2 = p2\<rparr>"

text \<open>\<open>y[(x1<x2) | xp.isnan(y)]=-xp.inf\<close>\<close>

definition conditional_2dimpdf_check_bound_pdf ::
  "fl list \<Rightarrow> fl list \<Rightarrow> fl list \<Rightarrow> fl list result" where
  "conditional_2dimpdf_check_bound_pdf x1 x2 y =
     ebind (broadcast2 flt x1 x2) (\<lambda>m1.
     ebind (broadcast2 (\<or>) m1 (map isnan y)) (\<lambda>m.
     setitem_mask y m NInf))"

text \<open>\<open>y=self.pdf1.log_pdf(x1)+self.pdf2.log_pdf(x2)-self.pdf2.log_cdf(x1)\<close>, the
  operands evaluated left to right.\<close>

definition conditional_2dimpdf_log_pdf ::
  "'a basic_1dimpdf_scheme store \<Rightarrow> conditional_2dimpdf \<Rightarrow> fl list \<Rightarrow> fl list
     \<Rightarrow> fl list result" where
  "conditional_2dimpdf_log_pdf s self x1 x2 =
     ebind (log_pdf (klass (s (pdf1 self))) (attrs (s (pdf1 self))) x1) (\<lambda>a.
     ebind (log_pdf (klass (s (pdf2 self))) (attrs (s (pdf2 self))) x2) (\<lambda>b.
     ebind (broadcast2 fadd a b) (\<lambda>ab.
     ebind (log_cdf (klass (s (pdf2 self))) (attrs (s (pdf2 self))) x1) (\<lambda>c.
     ebind (broadcast2 fsub ab c) (\<lambda>y.
     conditional_2dimpdf_check_bound_pdf x1 x2 y)))))"

definition conditional_2dimpdf_pdf ::
  "'a basic_1dimpdf_scheme store \<Rightarrow> conditional_2dimpdf \<Rightarrow> fl list \<Rightarrow> fl list
     \<Rightarrow> fl list result" where
  "conditional_2dimpdf_pdf s self x1 x2 =
     ebind (conditional_2dimpdf_log_pdf s self x1 x2) (\<lambda>y. Inr (map fexp y))"

text \<open>
  \<open>interp(x, xp, fp)\<close> of the backend, one-dimensional linear interpolation with the
  edge values outside the table, as numpy computes it: a not-a-number query is returned
  as it is; a query above the last \<open>xp\<close> gives the last \<open>fp\<close>, one below the first
  \<open>xp\<close> the first \<open>fp\<close>; otherwise \<open>j\<close> is the index found by the search, the result
  is \<open>fp[j]\<close> when \<open>j\<close> is the last index or \<open>xp[j]\<close> equals the query, and else
  \<open>slope * (x - xp[j]) + fp[j]\<close> with \<open>slope = (fp[j+1] - fp[j]) / (xp[j+1] - xp[j])\<close>.
  The search is numpy's linear search (the number of entries after the first that the
  query reaches); its bisection finds the same index on a table that does not decrease.
  An empty table and tables of different lengths raise ValueError.
\<close>

definition linear_search :: "fl \<Rightarrow> fl list \<Rightarrow> nat" where
  "linear_search key arr = length (takeWhile (\<lambda>a. fge key a) (tl arr))"

definition interp1 :: "fl \<Rightarrow> fl list \<Rightarrow> fl list \<Rightarrow> fl" where
  "interp1 x xp fp =
     (if length xp = 1
      then (if flt x (hd xp) then hd fp else if fgt x (hd xp) then last fp else hd fp)
      else if isnan x then x
      else if fgt x (last xp) then last fp
      else if flt x (hd xp) then hd fp
      else
        let j = linear_search x xp in
        if j = length xp - 1 then fp ! j
        else if feq (xp ! j) x then fp ! j
        else
          let slope = fdiv (fsub (fp ! (j + 1)) (fp ! j)) (fsub (xp ! (j + 1)) (xp ! j));
              r = fadd (fmul slope (fsub x (xp ! j))) (fp ! j)
          in if isnan r
             then (let r2 = fadd (fmul slope (fsub x (xp ! (j + 1)))) (fp ! (j + 1))
                   in if isnan r2 \<and> feq (fp ! j) (fp ! (j + 1)) then fp ! j else r2)
             else r)"

definition interp :: "fl list \<Rightarrow> fl list \<Rightarrow> fl list \<Rightarrow> fl list result" where
  "interp x xp fp =
     (if xp = [] \<or> length fp \<noteq> length xp then Inl ValueError
      else Inr (map (\<lambda>xi. interp1 xi xp fp) x))"

text \<open>\<open>sample(N)\<close> draws twice \<open>N\<close> uniform variates from the global random source; the
  model takes the two arrays of draws, \<open>randomcdf1\<close> and \<open>randomcdf2\<close>, as arguments.\<close>

definition conditional_2dimpdf_sample ::
  "'a basic_1dimpdf_scheme store \<Rightarrow> conditional_2dimpdf \<Rightarrow> fl list \<Rightarrow> fl list
     \<Rightarrow> (fl list \<times> fl list) result" where
  "conditional_2dimpdf_sample s self randomcdf1 randomcdf2 =
     (let o1 = s (pdf1 self); o2 = s (pdf2 self);
          sarray1 = linspace (minval (attrs o1)) (maxval (attrs o1)) 10000
      in ebind (cdf (klass o1) (attrs o1) sarray1) (\<lambda>cdfeval1.
         let sarray2 = linspace (minval (attrs o2)) (maxval (attrs o2)) 10000
         in ebind (cdf (klass o2) (attrs o2) sarray2) (\<lambda>cdfeval2.
            ebind (interp randomcdf1 cdfeval1 sarray1) (\<lambda>x1samp.
            ebind (cdf (klass o2) (attrs o2) x1samp) (\<lambda>c.
            ebind (broadcast2 fmul randomcdf2 c) (\<lambda>q.
            ebind (interp q cdfeval2 sarray2) (\<lambda>x2samp.
              Inr (x1samp, x2samp))))))))"

text \<open>The statement \<open>obj.minval = v\<close> on the object at an address.\<close>

definition setattr_minval ::
  "'a basic_1dimpdf_scheme store \<Rightarrow> addr \<Rightarrow> fl \<Rightarrow> 'a basic_1dimpdf_scheme store" where
  "setattr_minval s a v = s(a := (s a)\<lparr>attrs := (attrs (s a))\<lparr>minval := v\<rparr>\<rparr>)"

text \<open>An example: \<open>p1 = PowerLaw(1., 10., 0.)\<close> and \<open>p2 = PowerLaw(1., 10., 0.)\<close>, at
  the addresses 0 and 1, and \<open>c = conditional_2dimpdf(p1, p2)\<close>.\<close>

definition PL_1_10_0 :: PowerLaw where
  "PL_1_10_0 = \<lparr>minval = Fin 1, maxval = Fin 10, minpl = Fin 1, maxpl = Fin 10,
                 alpha = Fin 0, norm_fact = Fin 9\<rparr>"

definition example_store :: "PowerLaw store" where
  "example_store = (\<lambda>a. \<lparr>attrs = PL_1_10_0, klass = PowerLaw_methods\<rparr>)"

text \<open>A second example: \<open>p1 = PowerLaw(1., 10., -2.)\<close> and \<open>p2 = PowerLaw(1., 10., -2.)\<close>
  on the same support.\<close>

definition PL_1_10_m2 :: PowerLaw where
  "PL_1_10_m2 = \<lparr>minval = Fin 1, maxval = Fin 10, minpl = Fin 1, maxpl = Fin 10,
                  alpha = Fin (- 2), norm_fact = Fin (9 / 10)\<rparr>"

definition example_store_m2 :: "PowerLaw store" where
  "example_store_m2 = (\<lambda>a. \<lparr>attrs = PL_1_10_m2, klass = PowerLaw_methods\<rparr>)"

text \<open>A third example: \<open>p1 = PowerLaw(1., 10., 0.)\<close> at address 0 and
  \<open>p2 = PowerLaw(5., 10., 0.)\<close> at the other addresses.\<close>

definition PL_5_10_0 :: PowerLaw where
  "PL_5_10_0 = \<lparr>minval = Fin 5, maxval = Fin 10, minpl = Fin 5, maxpl = Fin 10,
                 alpha = Fin 0, norm_fact = Fin 5\<rparr>"

definition example_store_5 :: "PowerLaw store" where
  "example_store_5 = (\<lambda>a. if a = 0 then \<lparr>attrs = PL_1_10_0, klass = PowerLaw_methods\<rparr>
                           else \<lparr>attrs = PL_5_10_0, klass = PowerLaw_methods\<rparr>)"

section \<open>Properties of the backend model\<close>

lemma ebind_Inr [simp]: "ebind (Inr v) f = f v"
  by (simp add: ebind_def)

lemma ebind_Inl [simp]: "ebind (Inl e) f = Inl e"
  by (simp add: ebind_def)

lemma setitem_mask_nth:
  assumes "length msk = length y" and "i < length y"
  shows "setitem_mask y msk v = Inr (map2 (\<lambda>yi m. if m then v else yi) y msk)"
    and "map2 (\<lambda>yi m. if m then v else yi) y msk ! i = (if msk ! i then v else y ! i)"
  using assms by (simp_all add: setitem_mask_def)

lemma fle_flt_not_fgt: "fle a b \<Longrightarrow> flt x a \<Longrightarrow> \<not> fgt x b"
  by (cases a; cases b; cases x) (auto simp: fle_def fgt_def)

lemma fpow_pos: "0 < b \<Longrightarrow> fpow (Fin b) (Fin e) = Fin (b powr e)"
  by auto

section \<open>The boundary clamp of basic_1dimpdf\<close>

lemma check_bound_pdf_eq:
  assumes "length y = length x"
  shows "check_bound_pdf self x y =
     Inr (map2 (\<lambda>xi yi. if flt xi (minval self) \<or> fgt xi (maxval self) then NInf else yi) x y)"
  using assms
  by (auto simp: check_bound_pdf_def setitem_mask_def intro!: nth_equalityI)

lemma check_bound_cdf_eq:
  assumes "length y = length x"
  shows "check_bound_cdf self x y =
     Inr (map2 (\<lambda>xi yi. if fgt xi (maxval self) then Fin 0
                        else if flt xi (minval self) then NInf else yi) x y)"
  using assms
  by (auto simp: check_bound_cdf_def setitem_mask_def intro!: nth_equalityI)

text \<open>
  Claim C1. Whatever arrays the kernels of a subclass return (of the shape of the input),
  at every point below \<open>minval\<close> or above \<open>maxval\<close> the log-density is \<open>-inf\<close>; above
  \<open>maxval\<close> the log-cumulative is \<open>0\<close> (cdf 1); below \<open>minval\<close> it is \<open>-inf\<close> (cdf 0),
  for a support with \<open>minval \<le> maxval\<close> (on an empty support a point can be below
  \<open>minval\<close> and above \<open>maxval\<close> at once, and the second assignment, \<open>0\<close>, wins).
\<close>

theorem basic_1dimpdf_clamp:
  assumes "raw_log_pdf M self x = Inr yp" and "length yp = length x"
    and "raw_log_cdf M self x = Inr yc" and "length yc = length x"
    and "i < length x"
  shows "\<exists>lp lc. log_pdf M self x = Inr lp \<and> log_cdf M self x = Inr lc
           \<and> length lp = length x \<and> length lc = length x
           \<and> cdf M self x = Inr (map fexp lc)
           \<and> (flt (x ! i) (minval self) \<or> fgt (x ! i) (maxval self) \<longrightarrow> lp ! i = NInf)
           \<and> (fgt (x ! i) (maxval self) \<longrightarrow> lc ! i = Fin 0 \<and> map fexp lc ! i = Fin 1)
           \<and> (fle (minval self) (maxval self) \<longrightarrow> flt (x ! i) (minval self)
                 \<longrightarrow> lc ! i = NInf \<and> map fexp lc ! i = Fin 0)"
  using assms fle_flt_not_fgt[of "minval self" "maxval self" "x ! i"]
  by (auto simp: log_pdf_def log_cdf_def cdf_def check_bound_pdf_eq check_bound_cdf_eq)

theorem basic_1dimpdf_clamp_witness:
  "fle (Fin 1) (Fin 10) \<and> flt ([Fin 0, Fin 5, Fin 11] ! 0) (Fin 1)
   \<and> (\<exists>lp lc.
        log_pdf PowerLaw_methods
          \<lparr>minval = Fin 1, maxval = Fin 10, minpl = Fin 1, maxpl = Fin 10, alpha = Fin 0,
            norm_fact = Fin 9\<rparr> [Fin 0, Fin 5, Fin 11] = Inr lp
      \<and> log_cdf PowerLaw_methods
          \<lparr>minval = Fin 1, maxval = Fin 10, minpl = Fin 1, maxpl = Fin 10, alpha = Fin 0,
            norm_fact = Fin 9\<rparr> [Fin 0, Fin 5, Fin 11] = Inr lc
      \<and> lp ! 0 = NInf \<and> lc ! 0 = NInf)"
proof -
  let ?p = "\<lparr>minval = Fin 1, maxval = Fin 10, minpl = Fin 1, maxpl = Fin 10, alpha = Fin 0,
             norm_fact = Fin 9\<rparr>"
  let ?x = "[Fin 0, Fin 5, Fin 11]"
  have p: "raw_log_pdf PowerLaw_methods ?p ?x = Inr (map (\<lambda>xi. fsub (fmul (alpha ?p) (flog xi)) (flog (norm_fact ?p))) ?x)"
    by (simp add: PowerLaw_methods_def PowerLaw_raw_log_pdf_def)
  have c: "raw_log_cdf PowerLaw_methods ?p ?x = Inr (map (\<lambda>xi. flog (fdiv
                  (fdiv (fsub (fpow xi (fadd (alpha ?p) (Fin 1)))
                              (fpow (minpl ?p) (fadd (alpha ?p) (Fin 1))))
                        (fadd (alpha ?p) (Fin 1)))
                  (norm_fact ?p))) ?x)"
    by (simp add: PowerLaw_methods_def PowerLaw_raw_log_cdf_def)
  from basic_1dimpdf_clamp[OF p _ c _, of 0] show ?thesis
    by (auto simp: fle_def)
qed

section \<open>The normalisation of PowerLaw\<close>

lemma PL_normfact_pos:
  assumes "0 < mn" and "0 < mx"
  shows "PL_normfact (Fin mn) (Fin mx) (Fin a) =
           Inr (Fin (if a = - 1 then ln (mx / mn)
                     else (mx powr (a + 1) - mn powr (a + 1)) / (a + 1)))"
  using assms by (simp add: PL_normfact_def pydiv_def fsub_def fpow_pos del: fpow.simps)

lemma PL_normfact_example: "PL_normfact (Fin 1) (Fin 10) (Fin (- 2)) = Inr (Fin (9 / 10))"
  using PL_normfact_pos[of 1 10 "- 2"] by (simp add: powr_minus)

lemma PowerLaw_init_example:
  "PowerLaw_init (Fin 1) (Fin 10) (Fin (- 2)) =
     Inr \<lparr>minval = Fin 1, maxval = Fin 10, minpl = Fin 1, maxpl = Fin 10, alpha = Fin (- 2),
          norm_fact = Fin (9 / 10)\<rparr>"
  by (simp add: PowerLaw_init_def PL_normfact_example)

lemma PowerLaw_pdf_example:
  "pdf PowerLaw_methods
     \<lparr>minval = Fin 1, maxval = Fin 10, minpl = Fin 1, maxpl = Fin 10, alpha = Fin (- 2),
       norm_fact = Fin (9 / 10)\<rparr> [Fin 1] = Inr [Fin (1 / (9 / 10))]"
  by (simp add: pdf_def log_pdf_def PowerLaw_methods_def PowerLaw_raw_log_pdf_def
      check_bound_pdf_def setitem_mask_def fsub_def fgt_def exp_minus)

text \<open>
  Claim C5. For positive bounds and a finite exponent, the normalisation constant of the
  power law is \<open>(max^(\<alpha>+1) - min^(\<alpha>+1)) / (\<alpha>+1)\<close> when \<open>\<alpha> \<noteq> -1\<close> and
  \<open>log (max / min)\<close> when \<open>\<alpha> = -1\<close>; \<open>PowerLaw(1, 10, -2)\<close> has the constant \<open>0.9\<close>
  and the density \<open>1 / 0.9\<close> at \<open>1\<close> (in exact real arithmetic).
\<close>

theorem PowerLaw_normalization:
  "(0 < mn \<and> 0 < mx \<longrightarrow>
      PL_normfact (Fin mn) (Fin mx) (Fin a) =
        Inr (Fin (if a = - 1 then ln (mx / mn)
                  else (mx powr (a + 1) - mn powr (a + 1)) / (a + 1))))
   \<and> (\<exists>p. PowerLaw_init (Fin 1) (Fin 10) (Fin (- 2)) = Inr p
          \<and> norm_fact p = Fin (9 / 10)
          \<and> pdf PowerLaw_methods p [Fin 1] = Inr [Fin (1 / (9 / 10))])"
  using PL_normfact_pos[of mn mx a] PowerLaw_init_example PowerLaw_pdf_example by simp

theorem PowerLaw_normalization_witness:
  "PL_normfact (Fin 2) (Fin 8) (Fin 1) = Inr (Fin 30)
   \<and> PL_normfact (Fin 2) (Fin 8) (Fin (- 1)) = Inr (Fin (ln 4))"
  using PowerLaw_normalization[of 2 8 1] PowerLaw_normalization[of 2 8 "- 1"] by simp

section \<open>The density of conditional_2dimpdf\<close>

lemma setitem_mask_Inr:
  "setitem_mask y m v = Inr z \<Longrightarrow> length z = length y \<and> length m = length y"
  by (auto simp: setitem_mask_def split: if_splits)

lemma ebind_eq_Inr: "ebind r f = Inr z \<longleftrightarrow> (\<exists>v. r = Inr v \<and> f v = Inr z)"
  by (cases r) simp_all

lemma log_pdf_length: "log_pdf M self x = Inr y \<Longrightarrow> length y = length x"
  unfolding log_pdf_def check_bound_pdf_def ebind_eq_Inr
  by (auto dest!: setitem_mask_Inr)

lemma log_cdf_length: "log_cdf M self x = Inr y \<Longrightarrow> length y = length x"
  unfolding log_cdf_def check_bound_cdf_def ebind_eq_Inr
  by (auto dest!: setitem_mask_Inr)

lemma PL_1_10_0_init: "PowerLaw_init (Fin 1) (Fin 10) (Fin 0) = Inr PL_1_10_0"
  by (simp add: PowerLaw_init_def PL_normfact_def fsub_def PL_1_10_0_def)

lemma conditional_2dimpdf_log_pdf_example:
  "conditional_2dimpdf_log_pdf example_store (conditional_2dimpdf_init 0 1)
     [Fin (1 / 2), Fin 2] [Fin (1 / 2), Fin (3 / 2)] = Inr [NInf, Fin (- ln 9)]"
  by (simp add: conditional_2dimpdf_log_pdf_def conditional_2dimpdf_init_def example_store_def
      PL_1_10_0_def PowerLaw_methods_def PowerLaw_raw_log_pdf_def PowerLaw_raw_log_cdf_def
      log_pdf_def log_cdf_def check_bound_pdf_def check_bound_cdf_def setitem_mask_def
      conditional_2dimpdf_check_bound_pdf_def broadcast2_def fsub_def fgt_def isnan_def
      ln_div)

text \<open>
  Claim C2. Where the three evaluations of the sub-distributions succeed on arrays of one
  length, the log-density of the pair is, element by element,
  \<open>pdf1.log_pdf(x1) + pdf2.log_pdf(x2) - pdf2.log_cdf(x1)\<close>, replaced by \<open>-inf\<close> where
  that value is not-a-number or where \<open>x1 < x2\<close>; no element of the result is
  not-a-number.
\<close>

theorem conditional_2dimpdf_log_pdf_value:
  assumes "log_pdf (klass (s (pdf1 self))) (attrs (s (pdf1 self))) x1 = Inr a"
    and "log_pdf (klass (s (pdf2 self))) (attrs (s (pdf2 self))) x2 = Inr b"
    and "log_cdf (klass (s (pdf2 self))) (attrs (s (pdf2 self))) x1 = Inr c"
    and "length x1 = length x2"
  shows "\<exists>y. conditional_2dimpdf_log_pdf s self x1 x2 = Inr y \<and> length y = length x1
           \<and> (\<forall>i<length x1.
                 y ! i = (if flt (x1 ! i) (x2 ! i) \<or> isnan (fsub (fadd (a ! i) (b ! i)) (c ! i))
                          then NInf else fsub (fadd (a ! i) (b ! i)) (c ! i))
               \<and> \<not> isnan (y ! i))"
proof -
  have la: "length a = length x1" and lb: "length b = length x2" and lc: "length c = length x1"
    using assms log_pdf_length log_cdf_length by blast+
  show ?thesis
    using assms la lb lc
    by (auto simp: conditional_2dimpdf_log_pdf_def conditional_2dimpdf_check_bound_pdf_def
        broadcast2_def setitem_mask_def isnan_def)
qed

text \<open>At \<open>x1 = x2 = 0.5\<close>, below the minimum \<open>1\<close> of both power laws, the three terms
  are \<open>-inf\<close>, their combination is not-a-number, and the result is \<open>-inf\<close>.\<close>

theorem conditional_2dimpdf_log_pdf_value_witness:
  "log_pdf PowerLaw_methods PL_1_10_0 [Fin (1 / 2)] = Inr [NInf]
   \<and> log_cdf PowerLaw_methods PL_1_10_0 [Fin (1 / 2)] = Inr [NInf]
   \<and> isnan (fsub (fadd NInf NInf) NInf)
   \<and> (\<exists>y. conditional_2dimpdf_log_pdf example_store (conditional_2dimpdf_init 0 1)
              [Fin (1 / 2)] [Fin (1 / 2)] = Inr y \<and> y ! 0 = NInf)"
proof -
  have p: "log_pdf PowerLaw_methods PL_1_10_0 [Fin (1 / 2)] = Inr [NInf]"
    and c: "log_cdf PowerLaw_methods PL_1_10_0 [Fin (1 / 2)] = Inr [NInf]"
    by (simp_all add: conditional_2dimpdf_log_pdf_def conditional_2dimpdf_init_def example_store_def
      PL_1_10_0_def PowerLaw_methods_def PowerLaw_raw_log_pdf_def PowerLaw_raw_log_cdf_def
      log_pdf_def log_cdf_def check_bound_pdf_def check_bound_cdf_def setitem_mask_def
      conditional_2dimpdf_check_bound_pdf_def broadcast2_def fsub_def fgt_def isnan_def
      ln_div)
  have n: "isnan (fsub (fadd NInf NInf) NInf)"
    by (simp add: isnan_def fsub_def)
  have "\<exists>y. conditional_2dimpdf_log_pdf example_store (conditional_2dimpdf_init 0 1)
              [Fin (1 / 2)] [Fin (1 / 2)] = Inr y \<and> y ! 0 = NInf"
    using conditional_2dimpdf_log_pdf_value[of example_store "conditional_2dimpdf_init 0 1"
        "[Fin (1 / 2)]" "[NInf]" "[Fin (1 / 2)]" "[NInf]" "[NInf]"] p c n
    by (auto simp: example_store_def)
  with p c n show ?thesis by blast
qed

section \<open>conditional_2dimpdf and the caller's objects\<close>

lemma conditional_2dimpdf_log_pdf_frame:
  assumes "s (pdf1 self) = t (pdf1 self)" and "s (pdf2 self) = t (pdf2 self)"
  shows "conditional_2dimpdf_log_pdf s self x1 x2 = conditional_2dimpdf_log_pdf t self x1 x2"
  using assms by (simp add: conditional_2dimpdf_log_pdf_def)

text \<open>
  Claim C9. The constructor keeps the addresses of the caller's objects (no copy is
  made). With \<open>p1\<close> at address 0: before \<open>p1.minval = 5.\<close> the log-density at
  \<open>(2, 1.5)\<close> is \<open>-log 9\<close>, after it the same call on the same 2D object gives \<open>-inf\<close>.
\<close>

theorem conditional_2dimpdf_aliases_caller:
  "pdf1 (conditional_2dimpdf_init 0 1) = 0
   \<and> conditional_2dimpdf_log_pdf example_store (conditional_2dimpdf_init 0 1)
        [Fin 2] [Fin (3 / 2)] = Inr [Fin (- ln 9)]
   \<and> conditional_2dimpdf_log_pdf (setattr_minval example_store 0 (Fin 5))
        (conditional_2dimpdf_init 0 1) [Fin 2] [Fin (3 / 2)] = Inr [NInf]"
  by (simp add: conditional_2dimpdf_log_pdf_def conditional_2dimpdf_init_def example_store_def
      PL_1_10_0_def PowerLaw_methods_def PowerLaw_raw_log_pdf_def PowerLaw_raw_log_cdf_def
      log_pdf_def log_cdf_def check_bound_pdf_def check_bound_cdf_def setitem_mask_def
      conditional_2dimpdf_check_bound_pdf_def broadcast2_def fsub_def fgt_def isnan_def
      ln_div setattr_minval_def)

section \<open>BinModel1d at the right end of its support\<close>

lemma setitem_mask_item_Inr:
  assumes "length c = length y" and "length x = length y"
  shows "\<exists>z. setitem_mask_item x y c f = Inr z \<and> length z = length y
          \<and> (\<forall>i<length y. z ! i = (if c ! i then apply_item f (x ! i) else y ! i))"
  using assms by (simp add: setitem_mask_item_def)

lemma piecewise_loop_snoc:
  assumes "\<forall>p \<in> set cs. length (fst p) = length y" and "length x = length y"
    and "length c = length y"
  shows "\<exists>z. piecewise_loop x y (cs @ [(c, f)]) = Inr z \<and> length z = length y
          \<and> (\<forall>i<length y. c ! i \<longrightarrow> z ! i = apply_item f (x ! i))"
  using assms
proof (induction cs arbitrary: y)
  case Nil
  then show ?case
    using setitem_mask_item_Inr[of c y x f] by auto
next
  case (Cons p cs)
  obtain c0 f0 where p: "p = (c0, f0)" by (cases p)
  from Cons.prems p have l0: "length c0 = length y" by simp
  from setitem_mask_item_Inr[OF l0 Cons.prems(2), of f0]
  obtain z0 where z0: "setitem_mask_item x y c0 f0 = Inr z0" "length z0 = length y" by blast
  have "\<exists>z. piecewise_loop x z0 (cs @ [(c, f)]) = Inr z \<and> length z = length z0
          \<and> (\<forall>i<length z0. c ! i \<longrightarrow> z ! i = apply_item f (x ! i))"
    using Cons.prems z0 by (intro Cons.IH) auto
  then show ?case using z0 p by simp
qed

lemma np_sum_Fin: "np_sum (map Fin rs) = Fin (sum_list rs)"
proof -
  have "foldl fadd (Fin a) (map Fin rs) = Fin (a + sum_list rs)" for a
    by (induction rs arbitrary: a) (simp_all add: add.assoc)
  from this[of 0] show ?thesis by (simp add: np_sum_def)
qed

lemma linspace_length: "length (linspace a b n) = n"
  by (simp add: linspace_def)

lemma linspace_last: "0 < n \<Longrightarrow> linspace a b (Suc n) ! n = b"
  by (simp add: linspace_def nth_append)

lemma linspace_0: "0 < n \<Longrightarrow> linspace (Fin a) (Fin b) (Suc n) ! 0 = Fin a"
  by (cases n) (simp_all add: linspace_def nth_append fsub_def upt_conv_Cons del: upt_Suc)

lemma linspace_1: "0 < n \<Longrightarrow> linspace (Fin a) (Fin b) (Suc n) ! 1 = Fin (a + (b - a) / real n)"
  apply (cases n)
   apply simp
  subgoal for m
    by (cases m) (simp_all add: linspace_def nth_append fsub_def upt_conv_Cons del: upt_Suc)
  done


lemma pc_init_Fin:
  assumes "rs \<noteq> []" and "sum_list rs \<noteq> 0" and "lo \<noteq> hi"
  shows "\<exists>d. piecewise_constant_distribution_normalized_init (Fin lo) (Fin hi) (map Fin rs) = Inr d
           \<and> pc_n_bins d = length rs
           \<and> pc_bins_with_boundaries d = (NInf # linspace (Fin lo) (Fin hi) (length rs + 1)) @ [PInf]
           \<and> pc_weights_with_boundaries_normalized d
               = map (fmul (Fin (1 / sum_list rs / ((hi - lo) / real (length rs)))))
                   (Fin 0 # map Fin rs) @ [Fin 0]"
proof -
  have n: "0 < length rs" using assms(1) by simp
  have g1: "getitem (linspace (Fin lo) (Fin hi) (Suc (length rs))) (Suc 0)
             = Inr (Fin (lo + (hi - lo) / real (length rs)))"
    using n linspace_1[OF n, of lo hi] by (simp add: getitem_def linspace_length)
  have g0: "getitem (linspace (Fin lo) (Fin hi) (Suc (length rs))) 0 = Inr (Fin lo)"
    using n linspace_0[OF n, of lo hi] by (simp add: getitem_def linspace_length)
  have d: "(hi - lo) / real (length rs) \<noteq> 0" using n assms(3) by simp
  show ?thesis
    using assms(2) d
    by (simp add: piecewise_constant_distribution_normalized_init_def Let_def g1 g0
        np_sum_Fin fsub_def)
qed

lemma get_conditions_last:
  assumes "pc_n_bins d = n"
    and "pc_bins_with_boundaries d = (NInf # linspace (Fin lo) (Fin hi) (n + 1)) @ [PInf]"
    and "0 < n"
  shows "\<exists>cs c. get_conditions d x = Inr (cs @ [c]) \<and> length cs = n + 1
            \<and> (\<forall>c0 \<in> set cs. length c0 = length x) \<and> length c = length x
            \<and> (\<forall>i<length x. x ! i = Fin hi \<longrightarrow> c ! i)"
proof -
  let ?b = "pc_bins_with_boundaries d"
  let ?f = "\<lambda>i. map (\<lambda>xi. fle (?b ! i) xi \<and> flt xi (?b ! (i + 1))) x"
  have len: "length ?b = n + 3" by (simp add: assms(2) linspace_length)
  have b1: "?b ! (n + 1) = Fin hi"
    using linspace_last[OF assms(3), of "Fin lo" "Fin hi"]
    by (simp add: assms(2) nth_append linspace_length)
  have b2: "?b ! (n + 2) = PInf"
    by (simp add: assms(2) nth_append linspace_length)
  have "get_conditions d x = Inr (map ?f [0..<n + 1] @ [?f (n + 1)])"
    by (simp add: get_conditions_def assms(1) len)
  moreover have "\<forall>i<length x. x ! i = Fin hi \<longrightarrow> ?f (n + 1) ! i"
    using b1 b2 by (simp add: fle_def add.commute)
  ultimately show ?thesis
    by (intro exI[of _ "map ?f [0..<n + 1]"] exI[of _ "?f (n + 1)"]) auto
qed


lemma zip_snoc: "length as = length bs \<Longrightarrow> zip (as @ [a]) (bs @ [b]) = zip as bs @ [(a, b)]"
  by simp

lemma pc_pdf_at_dist_max:
  assumes "rs \<noteq> []" and "sum_list rs \<noteq> 0" and "lo \<noteq> hi"
    and "piecewise_constant_distribution_normalized_init (Fin lo) (Fin hi) (map Fin rs) = Inr d"
  shows "\<exists>p. pc_pdf d x = Inr p \<and> length p = length x
           \<and> (\<forall>i<length x. x ! i = Fin hi \<longrightarrow> p ! i = Fin 0)"
proof -
  let ?n = "length rs"
  define w where "w = map (fmul (Fin (1 / sum_list rs / ((hi - lo) / real ?n)))) (Fin 0 # map Fin rs)"
  from pc_init_Fin[OF assms(1-3)] assms(4)
  have nb: "pc_n_bins d = ?n"
    and bwb: "pc_bins_with_boundaries d = (NInf # linspace (Fin lo) (Fin hi) (?n + 1)) @ [PInf]"
    and wn: "pc_weights_with_boundaries_normalized d = w @ [Fin 0]"
    by (auto simp: w_def)
  have n: "0 < ?n" using assms(1) by simp
  from get_conditions_last[OF nb bwb n, of x]
  obtain cs c where gc: "get_conditions d x = Inr (cs @ [c])" and lcs: "length cs = ?n + 1"
    and all: "\<forall>c0 \<in> set cs. length c0 = length x" and lc: "length c = length x"
    and hit: "\<forall>i<length x. x ! i = Fin hi \<longrightarrow> c ! i"
    by blast
  have lw: "length cs = length (map Scalar w)" using lcs by (simp add: w_def)
  have z: "zip (cs @ [c]) (map Scalar (w @ [Fin 0]))
             = zip cs (map Scalar w) @ [(c, Scalar (Fin 0))]"
    using zip_snoc[OF lw, of c "Scalar (Fin 0)"] by simp
  have pre: "\<forall>p \<in> set (zip cs (map Scalar w)). length (fst p) = length (map (\<lambda>_. Fin 0) x)"
    using all by (auto dest: set_zip_leftD)
  from piecewise_loop_snoc[OF pre, of x c "Scalar (Fin 0)"] lc
  obtain p where p: "piecewise_loop x (map (\<lambda>_. Fin 0) x)
                       (zip cs (map Scalar w) @ [(c, Scalar (Fin 0))]) = Inr p"
    and lp: "length p = length x"
    and v: "\<forall>i<length x. c ! i \<longrightarrow> p ! i = Fin 0"
    by auto
  have "length (map Scalar (w @ [Fin 0])) = length (cs @ [c])"
    using lw by simp
  then have "pc_pdf d x = Inr p"
    unfolding pc_pdf_def gc wn piecewise_def ebind_Inr z p by simp
  with lp v hit show ?thesis by auto
qed

text \<open>
  Claim C10. For a BinModel1d built from at least one finite weight, with a nonzero sum
  of weights and \<open>dist_min \<noteq> dist_max\<close>: wherever the input equals \<open>dist_max\<close>, the
  kernel itself already returns \<open>-inf\<close> (the point lies in the last half-open interval
  \<open>[dist_max, inf)\<close>, whose weight is the appended zero), the clamp mask \<open>x > maxval\<close> is
  false there, \<open>log_pdf\<close> is \<open>-inf\<close> and \<open>pdf\<close> is \<open>0\<close>.
\<close>

theorem BinModel1d_pdf_at_dist_max:
  assumes "rs \<noteq> []" and "sum_list rs \<noteq> 0" and "lo \<noteq> hi"
    and "i < length x" and "x ! i = Fin hi"
  shows "\<exists>d r lp p. BinModel1d_init (Fin lo) (Fin hi) (map Fin rs) = Inr d
           \<and> maxval d = Fin hi \<and> \<not> fgt (x ! i) (maxval d)
           \<and> raw_log_pdf BinModel1d_methods d x = Inr r \<and> r ! i = NInf
           \<and> log_pdf BinModel1d_methods d x = Inr lp \<and> lp ! i = NInf
           \<and> pdf BinModel1d_methods d x = Inr p \<and> p ! i = Fin 0"
proof -
  from pc_init_Fin[OF assms(1-3)]
  obtain d0 where d0: "piecewise_constant_distribution_normalized_init (Fin lo) (Fin hi) (map Fin rs) = Inr d0"
    by blast
  let ?d = "\<lparr>minval = Fin lo, maxval = Fin hi, bm_dist_min = Fin lo, bm_dist_max = Fin hi,
            bin_list = map Fin rs, distribution = d0\<rparr>"
  have init: "BinModel1d_init (Fin lo) (Fin hi) (map Fin rs) = Inr ?d"
    by (simp add: BinModel1d_init_def d0)
  from pc_pdf_at_dist_max[OF assms(1-3) d0, of x] assms(4,5)
  obtain q where q: "pc_pdf d0 x = Inr q" "length q = length x" "q ! i = Fin 0"
    by auto
  have raw: "raw_log_pdf BinModel1d_methods ?d x = Inr (map flog q)"
    by (simp add: BinModel1d_methods_def BinModel1d_raw_log_pdf_def q)
  have ri: "map flog q ! i = NInf" using q assms(4) by simp
  have lp: "log_pdf BinModel1d_methods ?d x =
              Inr (map2 (\<lambda>xi yi. if flt xi (Fin lo) \<or> fgt xi (Fin hi) then NInf else yi) x (map flog q))"
    using q by (simp add: log_pdf_def raw check_bound_pdf_eq)
  have lpi: "map2 (\<lambda>xi yi. if flt xi (Fin lo) \<or> fgt xi (Fin hi) then NInf else yi) x (map flog q) ! i = NInf"
    using q assms(4) by simp
  show ?thesis
    using init raw ri lp lpi q assms(4,5)
    by (auto simp: pdf_def fgt_def)
qed


text \<open>With the weights \<open>[1, 3]\<close> on \<open>[0, 2]\<close> the last bin's normalised weight is
  \<open>3/4\<close>, and the density at \<open>2\<close> is \<open>0\<close>.\<close>

lemma BinModel1d_example_weights:
  "\<exists>d. BinModel1d_init (Fin 0) (Fin 2) (map Fin [1, 3]) = Inr d
     \<and> pc_weights_with_boundaries_normalized (distribution d)
         = [Fin 0, Fin (1 / 4), Fin (3 / 4), Fin 0]"
  by (simp add: BinModel1d_init_def piecewise_constant_distribution_normalized_init_def
      linspace_def getitem_def np_sum_def fsub_def Let_def upt_rec)

theorem BinModel1d_pdf_at_dist_max_witness:
  "[1, 3] \<noteq> ([] :: real list) \<and> sum_list [1, 3 :: real] \<noteq> 0 \<and> (0 :: real) \<noteq> 2
   \<and> (\<exists>d lp p. BinModel1d_init (Fin 0) (Fin 2) (map Fin [1, 3]) = Inr d
         \<and> pc_weights_with_boundaries_normalized (distribution d) ! 2 = Fin (3 / 4)
         \<and> log_pdf BinModel1d_methods d [Fin 2] = Inr lp \<and> lp ! 0 = NInf
         \<and> pdf BinModel1d_methods d [Fin 2] = Inr p \<and> p ! 0 = Fin 0)"
  using BinModel1d_pdf_at_dist_max[of "[1, 3]" 0 2 0 "[Fin 2]"] BinModel1d_example_weights
  by auto

section \<open>The window function at its boundaries\<close>

lemma S_factor_eq:
  assumes "\<not> feq dm (Fin 0)"
  shows "S_factor mass mmin dm =
     Inr (map (\<lambda>m. if fge m (fadd dm mmin) then Fin 1
                    else if fle m mmin then Fin 0
                    else fdiv (Fin 1) (fadd (if fgt m mmin \<and> flt m (fadd dm mmin)
                         then fexp (nan_to_num (fadd (fdiv dm (fsub m mmin)) (fdiv dm (fsub (fsub m mmin) dm))))
                         else Fin 1) (Fin 1))) mass)"
  using assms
  by (auto simp: S_factor_def Let_def setitem_mask_def intro!: nth_equalityI)




text \<open>A negative width is outside the claim: both final masks hold on
  \<open>[minval + w, minval]\<close> and the later assignment, \<open>1\<close>, wins.\<close>

lemma S_factor_negative_width:
  "S_factor [Fin (- 1 / 2)] (Fin 0) (Fin (- 1)) = Inr [Fin 1]"
  by (simp add: S_factor_eq fle_def fge_def fgt_def fsub_def)

section \<open>The mixture PowerLawGaussian\<close>

lemma powr_base_neq:
  assumes "0 < (a::real)" and "0 < b" and "a \<noteq> b" and "e \<noteq> 0"
  shows "a powr e \<noteq> b powr e"
  using assms by (simp add: powr_def)

lemma PowerLaw_init_pos:
  assumes "0 < mn" and "0 < mx"
  shows "PowerLaw_init (Fin mn) (Fin mx) (Fin a) =
     Inr \<lparr>minval = Fin mn, maxval = Fin mx, minpl = Fin mn, maxpl = Fin mx, alpha = Fin a,
          norm_fact = Fin (if a = - 1 then ln (mx / mn)
                           else (mx powr (a + 1) - mn powr (a + 1)) / (a + 1))\<rparr>"
  using PL_normfact_pos[OF assms, of a] by (simp add: PowerLaw_init_def)

lemma cdf_single:
  assumes "raw_log_cdf M self [x] = Inr [y]"
  shows "cdf M self [x] =
     Inr [fexp (if fgt x (maxval self) then Fin 0 else if flt x (minval self) then NInf else y)]"
  using assms by (simp add: cdf_def log_cdf_def check_bound_cdf_eq)

lemma PowerLaw_cdf_ge_max:
  assumes "0 < mn" and "mn < mx" and "mx \<le> v"
    and "PowerLaw_init (Fin mn) (Fin mx) (Fin a) = Inr p"
  shows "cdf PowerLaw_methods p [Fin v] = Inr [Fin 1]"
proof -
  have mx: "0 < mx" using assms by linarith
  have p: "p = \<lparr>minval = Fin mn, maxval = Fin mx, minpl = Fin mn, maxpl = Fin mx, alpha = Fin a,
          norm_fact = Fin (if a = - 1 then ln (mx / mn)
                           else (mx powr (a + 1) - mn powr (a + 1)) / (a + 1))\<rparr>"
    using PowerLaw_init_pos[OF assms(1) mx, of a] assms(4) by simp
  have "\<exists>y. raw_log_cdf PowerLaw_methods p [Fin v] = Inr [y]"
    by (cases "feq (alpha p) (Fin (- 1))")
      (simp_all add: PowerLaw_methods_def PowerLaw_raw_log_cdf_def)
  then obtain y where raw: "raw_log_cdf PowerLaw_methods p [Fin v] = Inr [y]" ..
  show ?thesis
  proof (cases "mx < v")
    case True
    then show ?thesis using cdf_single[OF raw] by (simp add: p fgt_def)
  next
    case False
    then have v: "v = mx" using assms(3) by simp
    have l: "ln (mx / mn) \<noteq> 0" using assms(1,2) by simp
    have d: "a \<noteq> - 1 \<Longrightarrow> mx powr (a + 1) - mn powr (a + 1) \<noteq> 0"
      using powr_base_neq[of mx mn "a + 1"] assms(1,2) mx by simp
    have "raw_log_cdf PowerLaw_methods p [Fin v] = Inr [Fin 0]"
    proof (cases "a = - 1")
      case True
      then show ?thesis using l assms(1) mx
        by (simp add: PowerLaw_methods_def PowerLaw_raw_log_cdf_def p v)
    next
      case False
      then show ?thesis using d assms(1) mx
        by (simp add: PowerLaw_methods_def PowerLaw_raw_log_cdf_def p v fsub_def fpow_pos
            del: fpow.simps)
    qed
    with raw have "y = Fin 0" by simp
    then show ?thesis using cdf_single[OF raw] assms(2) by (simp add: p fgt_def v)
  qed
qed


lemma ln_exp_add: "a + ln (1 + exp (b - a)) = ln (exp a + exp b)" for a b :: real
proof -
  have "exp a + exp b = exp a * (1 + exp (b - a))"
    by (simp add: algebra_simps exp_diff)
  moreover have "0 < 1 + exp (b - a)"
    by (simp add: add_pos_pos)
  ultimately show ?thesis
    by (simp add: ln_mult)
qed

lemma logaddexp_Fin: "logaddexp (Fin a) (Fin b) = Fin (ln (exp a + exp b))"
proof -
  have pos: "0 < 1 + exp t" for t :: real by (simp add: add_pos_pos)
  have e: "a = b \<Longrightarrow> a + ln 2 = ln (exp a + exp b)"
    by (simp add: ln_mult flip: mult_2)
  show ?thesis
    using pos ln_exp_add[of a b] ln_exp_add[of b a] e
    by (auto simp: logaddexp_def Let_def fsub_def fgt_def fle_def flog1p_def add.commute)
qed

lemma logaddexp_log_sum_exp: "logaddexp x y = flog (fadd (fexp x) (fexp y))"
proof -
  have pos: "0 < exp a + exp b" for a b :: real by (simp add: add_pos_pos)
  show ?thesis
  proof (cases x; cases y)
    fix a b assume "x = Fin a" "y = Fin b"
    then show ?thesis using logaddexp_Fin[of a b] pos[of a b] by simp
  qed (simp_all add: logaddexp_def Let_def fsub_def fgt_def fle_def flog1p_def)
qed


lemma log_pdf_total:
  assumes "\<And>x. \<exists>y. raw_log_pdf M self x = Inr y \<and> length y = length x"
  shows "\<exists>y. log_pdf M self x = Inr y \<and> length y = length x"
proof -
  from assms[of x] obtain y where "raw_log_pdf M self x = Inr y" "length y = length x" by blast
  then show ?thesis by (simp add: log_pdf_def check_bound_pdf_eq)
qed

lemma cdf_total:
  assumes "\<And>x. \<exists>y. raw_log_cdf M self x = Inr y \<and> length y = length x"
  shows "\<exists>y. cdf M self x = Inr y \<and> length y = length x"
proof -
  from assms[of x] obtain y where "raw_log_cdf M self x = Inr y" "length y = length x" by blast
  then show ?thesis by (simp add: cdf_def log_cdf_def check_bound_cdf_eq)
qed

lemma PowerLaw_raw_total:
  "\<exists>y. raw_log_pdf PowerLaw_methods p x = Inr y \<and> length y = length x"
  "\<exists>y. raw_log_cdf PowerLaw_methods p x = Inr y \<and> length y = length x"
  by (simp_all add: PowerLaw_methods_def PowerLaw_raw_log_pdf_def PowerLaw_raw_log_cdf_def)

lemma TruncatedGaussian_raw_total:
  "\<exists>y. raw_log_pdf (TruncatedGaussian_methods erf) g x = Inr y \<and> length y = length x"
  "\<exists>y. raw_log_cdf (TruncatedGaussian_methods erf) g x = Inr y \<and> length y = length x"
  by (simp_all add: TruncatedGaussian_methods_def TruncatedGaussian_raw_log_pdf_def
      TruncatedGaussian_raw_log_cdf_def Let_def)

lemma TruncatedGaussian_cdf_ge_max:
  assumes "strict_mono erf" and "0 < sigma" and "mng < mxg" and "mxg \<le> v"
  shows "cdf (TruncatedGaussian_methods erf)
           (TruncatedGaussian_init erf (Fin mean) (Fin sigma) (Fin mng) (Fin mxg)) [Fin v]
         = Inr [Fin 1]"
proof -
  let ?g = "TruncatedGaussian_init erf (Fin mean) (Fin sigma) (Fin mng) (Fin mxg)"
  let ?zmax = "(mxg - mean) / (sigma * sqrt 2)" and ?zmin = "(mng - mean) / (sigma * sqrt 2)"
  have s2: "0 < sigma * sqrt 2" using assms(2) by simp
  have "?zmin < ?zmax" using assms(3) s2 by (simp add: divide_strict_right_mono)
  then have e: "erf ?zmin < erf ?zmax" using assms(1) by (simp add: strict_mono_def)
  have nf: "tg_norm_fact ?g = Fin (1 / 2 * erf ?zmax - 1 / 2 * erf ?zmin)"
    using assms(2) by (simp add: TruncatedGaussian_init_def get_gaussian_norm_def Let_def fsub_def)
  have nz: "1 / 2 * erf ?zmax - 1 / 2 * erf ?zmin \<noteq> 0" using e by simp
  obtain y where raw: "raw_log_cdf (TruncatedGaussian_methods erf) ?g [Fin v] = Inr [y]"
    by (simp add: TruncatedGaussian_methods_def TruncatedGaussian_raw_log_cdf_def Let_def)
  have mv: "maxval ?g = Fin mxg" "minval ?g = Fin mng"
    by (simp_all add: TruncatedGaussian_init_def)
  show ?thesis
  proof (cases "mxg < v")
    case True
    then show ?thesis using cdf_single[OF raw] by (simp add: mv fgt_def)
  next
    case False
    then have v: "v = mxg" using assms(4) by simp
    have sz: "sigma \<noteq> 0" using assms(2) by simp
    have "raw_log_cdf (TruncatedGaussian_methods erf) ?g [Fin v] = Inr [Fin 0]"
      using sz nz
      by (simp add: TruncatedGaussian_methods_def TruncatedGaussian_raw_log_cdf_def Let_def nf v
          fsub_def)
        (simp add: TruncatedGaussian_init_def)
    with raw have "y = Fin 0" by simp
    then show ?thesis using cdf_single[OF raw] assms(3) by (simp add: mv fgt_def v)
  qed
qed


lemma broadcast2_same_length:
  "length a = length b \<Longrightarrow> broadcast2 f a b = Inr (map2 f a b)"
  by (simp add: broadcast2_def)

text \<open>
  Claim C6. For a strictly increasing error function, a weight \<open>0 < \<lambda> < 1\<close>, a power
  law on \<open>0 < minpl < maxpl\<close> and a Gaussian with \<open>\<sigma> > 0\<close> on \<open>ming < maxg\<close>:
  the kernel of the mixture's log-cumulative is the logarithm of
  \<open>(1 - \<lambda>) * PL.cdf(x) + \<lambda> * TG.cdf(x)\<close>; the kernel of its log-density is the
  logarithm of the sum of the exponentials of \<open>log (1 - \<lambda>) + PL.log_pdf(x)\<close> and
  \<open>log \<lambda> + TG.log_pdf(x)\<close>; and the cumulative at \<open>maxval = max(maxpl, maxg)\<close> is
  \<open>1\<close> (in exact real arithmetic).
\<close>

theorem PowerLawGaussian_mixture:
  assumes "strict_mono erf" and "0 < lam" and "lam < 1" and "0 < mnpl" and "mnpl < mxpl"
    and "0 < sigma" and "mng < mxg"
  shows "\<exists>d lp lt cp ct.
      PowerLawGaussian_init erf (Fin mnpl) (Fin mxpl) (Fin a) (Fin lam) (Fin mean) (Fin sigma)
        (Fin mng) (Fin mxg) = Inr d
    \<and> maxval d = Fin (max mxpl mxg)
    \<and> log_pdf PowerLaw_methods (PL d) x = Inr lp
    \<and> log_pdf (TruncatedGaussian_methods erf) (TG d) x = Inr lt
    \<and> cdf PowerLaw_methods (PL d) x = Inr cp
    \<and> cdf (TruncatedGaussian_methods erf) (TG d) x = Inr ct
    \<and> raw_log_cdf (PowerLawGaussian_methods erf) d x
        = Inr (map2 (\<lambda>p t. flog (fadd (fmul (Fin (1 - lam)) p) (fmul (Fin lam) t))) cp ct)
    \<and> raw_log_pdf (PowerLawGaussian_methods erf) d x
        = Inr (map2 (\<lambda>p t. flog (fadd (fexp (fadd (Fin (ln (1 - lam))) p))
                                        (fexp (fadd (Fin (ln lam)) t)))) lp lt)
    \<and> cdf (PowerLawGaussian_methods erf) d [maxval d] = Inr [Fin 1]"
proof -
  have mx: "0 < mxpl" using assms(4,5) by linarith
  obtain pl where pl: "PowerLaw_init (Fin mnpl) (Fin mxpl) (Fin a) = Inr pl"
    using PowerLaw_init_pos[OF assms(4) mx] by blast
  let ?tg = "TruncatedGaussian_init erf (Fin mean) (Fin sigma) (Fin mng) (Fin mxg)"
  let ?v = "max mxpl mxg"
  let ?d = "\<lparr>minval = pymin (Fin mnpl) (Fin mng), maxval = pymax (Fin mxpl) (Fin mxg),
            plg_minpl = Fin mnpl, plg_maxpl = Fin mxpl, plg_alpha = Fin a, plg_lambdag = Fin lam,
            plg_meang = Fin mean, plg_sigmag = Fin sigma, plg_ming = Fin mng, plg_maxg = Fin mxg,
            PL = pl, TG = ?tg\<rparr>"
  have init: "PowerLawGaussian_init erf (Fin mnpl) (Fin mxpl) (Fin a) (Fin lam) (Fin mean)
                (Fin sigma) (Fin mng) (Fin mxg) = Inr ?d"
    by (simp add: PowerLawGaussian_init_def pl)
  have pm: "pymax (Fin mxpl) (Fin mxg) = Fin ?v" by (simp add: pymax_def fgt_def max_def)
  have pn: "pymin (Fin mnpl) (Fin mng) = Fin (min mnpl mng)" by (auto simp: pymin_def min_def)
  have maxv: "maxval ?d = Fin ?v" by (simp add: pm)
  obtain lp where lp: "log_pdf PowerLaw_methods pl x = Inr lp" "length lp = length x"
    using log_pdf_total[of PowerLaw_methods pl x] PowerLaw_raw_total(1) by blast
  obtain lt where lt: "log_pdf (TruncatedGaussian_methods erf) ?tg x = Inr lt" "length lt = length x"
    using log_pdf_total[of "TruncatedGaussian_methods erf" ?tg x] TruncatedGaussian_raw_total(1)
    by blast
  obtain cp where cp: "cdf PowerLaw_methods pl x = Inr cp" "length cp = length x"
    using cdf_total[of PowerLaw_methods pl x] PowerLaw_raw_total(2) by blast
  obtain ct where ct: "cdf (TruncatedGaussian_methods erf) ?tg x = Inr ct" "length ct = length x"
    using cdf_total[of "TruncatedGaussian_methods erf" ?tg x] TruncatedGaussian_raw_total(2)
    by blast
  have l1: "0 < 1 - lam" using assms(3) by simp
  have rc: "raw_log_cdf (PowerLawGaussian_methods erf) ?d x
        = Inr (map2 (\<lambda>p t. flog (fadd (fmul (Fin (1 - lam)) p) (fmul (Fin lam) t))) cp ct)"
    using cp ct
    by (simp add: PowerLawGaussian_methods_def PowerLawGaussian_raw_log_cdf_def
        broadcast2_same_length fsub_def zip_map_map split_def o_def)
  have rp: "raw_log_pdf (PowerLawGaussian_methods erf) ?d x
        = Inr (map2 (\<lambda>p t. flog (fadd (fexp (fadd (Fin (ln (1 - lam))) p))
                                        (fexp (fadd (Fin (ln lam)) t)))) lp lt)"
    using lp lt l1 assms(2)
    by (simp add: PowerLawGaussian_methods_def PowerLawGaussian_raw_log_pdf_def
        broadcast2_same_length flog1p_def zip_map_map split_def o_def logaddexp_log_sum_exp)
  have c1: "cdf PowerLaw_methods pl [Fin ?v] = Inr [Fin 1]"
    using PowerLaw_cdf_ge_max[OF assms(4,5) _ pl, of ?v] by simp
  have c2: "cdf (TruncatedGaussian_methods erf) ?tg [Fin ?v] = Inr [Fin 1]"
    using TruncatedGaussian_cdf_ge_max[OF assms(1,6,7), of ?v mean] by simp
  have raw1: "raw_log_cdf (PowerLawGaussian_methods erf) ?d [Fin ?v] = Inr [Fin 0]"
    by (simp add: PowerLawGaussian_methods_def PowerLawGaussian_raw_log_cdf_def c1 c2
        broadcast2_def fsub_def)
  have "min mnpl mng \<le> ?v" using assms(5) by (simp add: min_def max_def)
  then have top: "cdf (PowerLawGaussian_methods erf) ?d [maxval ?d] = Inr [Fin 1]"
    using cdf_single[OF raw1] assms(5) by (simp add: pm pn fgt_def)
  show ?thesis
    using init maxv lp lt cp ct rc rp top
    by (intro exI[of _ ?d] exI[of _ lp] exI[of _ lt] exI[of _ cp] exI[of _ ct]) simp
qed

theorem PowerLawGaussian_mixture_witness:
  "strict_mono (\<lambda>x :: real. x) \<and> (0 :: real) < 1 / 2 \<and> (1 / 2 :: real) < 1
   \<and> (0 :: real) < 1 \<and> (1 :: real) < 10 \<and> (2 :: real) < 8
   \<and> (\<exists>d. PowerLawGaussian_init (\<lambda>x. x) (Fin 1) (Fin 10) (Fin (- 2)) (Fin (1 / 2)) (Fin 5)
              (Fin 1) (Fin 2) (Fin 8) = Inr d
          \<and> maxval d = Fin 10
          \<and> cdf (PowerLawGaussian_methods (\<lambda>x. x)) d [Fin 10] = Inr [Fin 1])"
proof -
  have s: "strict_mono (\<lambda>x :: real. x)" by (simp add: strict_mono_def)
  from PowerLawGaussian_mixture[OF s, of "1 / 2" 1 10 1 2 8 "- 2" 5 "[]"]
  show ?thesis using s by auto
qed

section \<open>The knots of the spline\<close>

lemma linspace_Fin:
  assumes "2 \<le> n"
  shows "linspace (Fin a) (Fin b) n
           = map Fin (map (\<lambda>k. a + real k * ((b - a) / real (n - 1))) [0..<n])"
proof -
  obtain m where n: "n = Suc (Suc m)" using assms by (metis Suc_eq_plus1 add_2_eq_Suc le_Suc_ex)
  have "[0..<n] = [0..<n - 1] @ [n - 1]" using n by simp
  then show ?thesis
    using n by (simp add: linspace_def fsub_def del: upt_Suc)
qed

lemma sum_list_div: "sum_list (map (\<lambda>x. f x / c) xs) = sum_list (map f xs) / (c :: real)"
  by (induction xs) (simp_all add: add_divide_distrib)

lemma y_points_loop_Fin:
  assumes "length y = n" and "length ds = n" and "1 \<le> j" and "j \<le> n"
    and "\<forall>i<j. y ! i = c + dx * (\<Sum>k<i. ds ! k)"
  shows "\<exists>z. y_points_loop (Fin dx) (map Fin ds) [j..<n] (map Fin y) = Inr (map Fin z)
           \<and> length z = n \<and> (\<forall>i<n. z ! i = c + dx * (\<Sum>k<i. ds ! k))"
  using assms
proof (induction "n - j" arbitrary: j y)
  case 0
  then have "j = n" by simp
  with 0 show ?case by auto
next
  case (Suc d)
  then have jn: "j < n" by simp
  let ?y = "y[j := y ! (j - 1) + dx * ds ! (j - 1)]"
  have up: "[j..<n] = j # [Suc j..<n]" using jn by (simp add: upt_conv_Cons)
  have step: "y_points_loop (Fin dx) (map Fin ds) [j..<n] (map Fin y)
                = y_points_loop (Fin dx) (map Fin ds) [Suc j..<n] (map Fin ?y)"
    using jn Suc.prems by (simp add: up map_update)
  have inv: "\<forall>i<Suc j. ?y ! i = c + dx * (\<Sum>k<i. ds ! k)"
  proof (intro allI impI)
    fix i assume i: "i < Suc j"
    show "?y ! i = c + dx * (\<Sum>k<i. ds ! k)"
    proof (cases "i = j")
      case True
      obtain j' where j': "j = Suc j'" using Suc.prems(3) by (cases j) auto
      have "y ! j' = c + dx * (\<Sum>k<j'. ds ! k)" using Suc.prems(5) j' by simp
      then show ?thesis using True jn Suc.prems(1) j' by (simp add: algebra_simps)
    next
      case False
      then show ?thesis using i Suc.prems(5) by simp
    qed
  qed
  have "\<exists>z. y_points_loop (Fin dx) (map Fin ds) [Suc j..<n] (map Fin ?y) = Inr (map Fin z)
           \<and> length z = n \<and> (\<forall>i<n. z ! i = c + dx * (\<Sum>k<i. ds ! k))"
    using Suc.hyps(2) Suc.prems jn inv by (intro Suc.hyps(1)) auto
  then show ?case by (simp add: step)
qed


text \<open>The constructor accepts finite arguments of one length, at least two, on strictly
  increasing x-points, and refuses x-points whose first step does not increase.\<close>

lemma np_diff_Fin:
  "np_diff (map Fin xs) = map (\<lambda>i. Fin (xs ! Suc i - xs ! i)) [0..<length xs - 1]"
  by (rule nth_equalityI)
    (simp_all add: np_diff_def nth_tl nth_butlast fsub_def)

lemma CubicHermiteSpline_init_Fin:
  assumes "2 \<le> length xs" and "length ys = length xs" and "length ds = length xs"
    and "\<forall>i. Suc i < length xs \<longrightarrow> xs ! i < xs ! Suc i"
  shows "CubicHermiteSpline_init (map Fin xs) (map Fin ys) (map Fin ds)
           = Inr (CubicHermiteSpline (map Fin xs) (map Fin ys) (map Fin ds))"
proof -
  have fin: "list_all isfinite (map Fin zs)" for zs
    by (simp add: list_all_iff isfinite_def)
  have "\<not> fle (Fin (xs ! Suc i - xs ! i)) (Fin 0)" if "i < length xs - 1" for i
  proof -
    have "Suc i < length xs" using that by simp
    then have "xs ! i < xs ! Suc i" using assms(4) by blast
    then show ?thesis by (simp add: fle_def)
  qed
  then have "\<not> list_ex (\<lambda>d. fle d (Fin 0)) (np_diff (map Fin xs))"
    by (auto simp: np_diff_Fin list_ex_iff)
  then show ?thesis
    using assms(1,2,3) fin by (simp add: CubicHermiteSpline_init_def)
qed

lemma CubicHermiteSpline_init_not_increasing:
  assumes "2 \<le> length xs" and "xs ! 1 \<le> xs ! 0"
  shows "CubicHermiteSpline_init (map Fin xs) y dydx = Inl ValueError"
proof -
  have "Fin (xs ! Suc 0 - xs ! 0) \<in> set (np_diff (map Fin xs))"
    using assms(1) by (auto simp: np_diff_Fin intro!: image_eqI[of _ _ 0])
  moreover have "fle (Fin (xs ! Suc 0 - xs ! 0)) (Fin 0)"
    using assms(2) by (auto simp: fle_def)
  ultimately have "list_ex (\<lambda>d. fle d (Fin 0)) (np_diff (map Fin xs))"
    unfolding list_ex_iff by blast
  then show ?thesis by (simp add: CubicHermiteSpline_init_def)
qed

text \<open>The arguments that reach the constructor, for any finite \<open>x_range\<close>.\<close>

lemma generate_spline_arguments:
  assumes "2 \<le> length ss" and "(\<Sum>s\<leftarrow>ss. s + 1 / 2) \<noteq> 0"
  shows "\<exists>dx xs ys ds.
      SplineWrapper_spline (map Fin ss) (Fin xr)
        = ebind (CubicHermiteSpline_init (map Fin xs) (map Fin ys) (map Fin ds))
            (\<lambda>spline. Inr (Fin dx, spline))
    \<and> length xs = length ss \<and> length ys = length ss \<and> length ds = length ss
    \<and> dx = 2 * xr / real (length ss - 1)
    \<and> (\<forall>i<length ss. xs ! i = - xr + real i * dx)
    \<and> (\<forall>i<length ss. ds ! i = (ss ! i + 1 / 2) / ((\<Sum>s\<leftarrow>ss. s + 1 / 2) / real (length ss)))
    \<and> sum_list ds / real (length ss) = 1
    \<and> (\<forall>i<length ss. ys ! i = dx * (\<Sum>k<i. ds ! k) - dx * (\<Sum>k<(length ss - 1) div 2. ds ! k))
    \<and> ys ! ((length ss - 1) div 2) = 0"
proof -
  let ?n = "length ss"
  let ?S = "\<Sum>s\<leftarrow>ss. s + 1 / 2"
  let ?D = "(xr - - xr) / real (?n - 1)"
  define dx where "dx = 2 * xr / real (?n - 1)"
  define xs where "xs = map (\<lambda>k. - xr + real k * ?D) [0..<?n]"
  define ds where "ds = map (\<lambda>s. (s + 1 / 2) / (?S / real ?n)) ss"
  let ?mid = "(?n - 1) div 2"
  have n2: "2 \<le> ?n" by (rule assms(1))
  have D: "?D = dx" by (simp add: dx_def)
  have lin: "linspace (fneg (Fin xr)) (Fin xr) ?n = map Fin xs"
    using linspace_Fin[OF n2, of "- xr" xr] by (simp add: xs_def)
  have lxs: "length xs = ?n" by (simp add: xs_def)
  have xi: "\<forall>i<?n. xs ! i = - xr + real i * dx"
    using n2 by (simp add: xs_def dx_def of_nat_diff)
  have n0: "0 < ?n" "Suc 0 < ?n" "ss \<noteq> []" using n2 by auto
  have g1: "getitem (map Fin xs) 1 = Inr (Fin (- xr + dx))"
    using n0 xi lxs by (simp add: getitem_def)
  have g0: "getitem (map Fin xs) 0 = Inr (Fin (- xr))"
    using n0 xi lxs by (simp add: getitem_def)
  have Sn: "?S / real ?n \<noteq> 0" using assms(2) n0 by simp
  have sum0: "np_sum (map (\<lambda>s. fadd s SPLINE_OFFSET_SLOPE) (map Fin ss)) = Fin ?S"
    using np_sum_Fin[of "map (\<lambda>s. s + 1 / 2) ss"] by (simp add: SPLINE_OFFSET_SLOPE_def o_def)
  have dy: "map (\<lambda>d. fdiv d (fdiv (np_sum (map (\<lambda>s. fadd s SPLINE_OFFSET_SLOPE) (map Fin ss)))
                                    (Fin (real ?n))))
              (map (\<lambda>s. fadd s SPLINE_OFFSET_SLOPE) (map Fin ss)) = map Fin ds"
    unfolding sum0 using Sn n0 by (simp add: ds_def SPLINE_OFFSET_SLOPE_def)
  have lds: "length ds = ?n" by (simp add: ds_def)
  have di: "\<forall>i<?n. ds ! i = (ss ! i + 1 / 2) / (?S / real ?n)" by (simp add: ds_def)
  have "sum_list ds = ?S / (?S / real ?n)"
    unfolding ds_def by (rule sum_list_div)
  then have mean: "sum_list ds / real ?n = 1"
    using assms(2) n0 by simp
  have inv0: "\<forall>i<1. xs ! i = - xr + dx * (\<Sum>k<i. ds ! k)"
    using xi n0 by simp
  from y_points_loop_Fin[OF lxs lds _ _ inv0] n0
  obtain z where z: "y_points_loop (Fin dx) (map Fin ds) [1..<?n] (map Fin xs) = Inr (map Fin z)"
    and lz: "length z = ?n" and zi: "\<forall>i<?n. z ! i = - xr + dx * (\<Sum>k<i. ds ! k)"
    by auto
  have midn: "?mid < ?n" using n0 by simp
  have gm: "getitem (map Fin z) ?mid = Inr (Fin (z ! ?mid))"
    using midn lz by (simp add: getitem_def)
  define ys where "ys = map (\<lambda>y. y - z ! ?mid) z"
  have shift: "map (\<lambda>y. fsub y (Fin (z ! ?mid))) (map Fin z) = map Fin ys"
    by (simp add: ys_def fsub_def)
  have res: "SplineWrapper_spline (map Fin ss) (Fin xr)
        = ebind (CubicHermiteSpline_init (map Fin xs) (map Fin ys) (map Fin ds))
            (\<lambda>spline. Inr (Fin dx, spline))"
    unfolding SplineWrapper_spline_def generate_spline_from_slope_list_def Let_def
      length_map lin g1 g0 ebind_Inr dy
    using z gm shift by (simp add: fsub_def)
  have lys: "length ys = ?n" by (simp add: ys_def lz)
  have yi: "\<forall>i<?n. ys ! i = dx * (\<Sum>k<i. ds ! k) - dx * (\<Sum>k<?mid. ds ! k)"
    using zi lz midn by (simp add: ys_def)
  have ym: "ys ! ?mid = 0" using midn lz by (simp add: ys_def)
  show ?thesis
    apply (rule exI[of _ dx], rule exI[of _ xs], rule exI[of _ ys], rule exI[of _ ds])
    apply (intro conjI res lxs lys lds dx_def xi di mean yi ym)
    done
qed

text \<open>
  Claim C7. For \<open>n \<ge> 2\<close> finite slopes whose offsets \<open>slope_i + 0.5\<close> do not sum to
  zero, and a finite \<open>x_range > 0\<close>, the constructor of the spline accepts its arguments
  and the spline is built on these knots: the x-points are the \<open>n\<close> equally spaced points
  of \<open>[-x_range, x_range]\<close> with spacing \<open>dx = 2 x_range / (n - 1)\<close>; the tangent at
  point \<open>i\<close> is \<open>slope_i + 0.5\<close> divided by the mean of these offsets, so the tangents
  have mean \<open>1\<close>; the y-point \<open>i\<close> is \<open>dx\<close> times the sum of the tangents before \<open>i\<close>
  (the left Riemann sum), shifted by its value at the middle index \<open>(n - 1) div 2\<close>, where
  the y-point is \<open>0\<close> (in exact real arithmetic).
\<close>

theorem generate_spline_knots:
  assumes "2 \<le> length ss" and "(\<Sum>s\<leftarrow>ss. s + 1 / 2) \<noteq> 0" and "0 < xr"
  shows "\<exists>dx xs ys ds.
      SplineWrapper_spline (map Fin ss) (Fin xr)
        = Inr (Fin dx, CubicHermiteSpline (map Fin xs) (map Fin ys) (map Fin ds))
    \<and> length xs = length ss \<and> length ys = length ss \<and> length ds = length ss
    \<and> dx = 2 * xr / real (length ss - 1)
    \<and> (\<forall>i<length ss. xs ! i = - xr + real i * dx)
    \<and> (\<forall>i<length ss. ds ! i = (ss ! i + 1 / 2) / ((\<Sum>s\<leftarrow>ss. s + 1 / 2) / real (length ss)))
    \<and> sum_list ds / real (length ss) = 1
    \<and> (\<forall>i<length ss. ys ! i = dx * (\<Sum>k<i. ds ! k) - dx * (\<Sum>k<(length ss - 1) div 2. ds ! k))
    \<and> ys ! ((length ss - 1) div 2) = 0"
proof -
  let ?n = "length ss"
  from generate_spline_arguments[OF assms(1,2), of xr]
  obtain dx xs ys ds where
    res: "SplineWrapper_spline (map Fin ss) (Fin xr)
        = ebind (CubicHermiteSpline_init (map Fin xs) (map Fin ys) (map Fin ds))
            (\<lambda>spline. Inr (Fin dx, spline))"
    and lxs: "length xs = ?n" and lys: "length ys = ?n" and lds: "length ds = ?n"
    and dx: "dx = 2 * xr / real (?n - 1)"
    and xi: "\<forall>i<?n. xs ! i = - xr + real i * dx"
    and di: "\<forall>i<?n. ds ! i = (ss ! i + 1 / 2) / ((\<Sum>s\<leftarrow>ss. s + 1 / 2) / real ?n)"
    and mean: "sum_list ds / real ?n = 1"
    and yi: "\<forall>i<?n. ys ! i = dx * (\<Sum>k<i. ds ! k) - dx * (\<Sum>k<(?n - 1) div 2. ds ! k)"
    and ym: "ys ! ((?n - 1) div 2) = 0"
    by blast
  have "0 < dx" using assms(1,3) by (simp add: dx)
  have inc: "\<forall>i. Suc i < length xs \<longrightarrow> xs ! i < xs ! Suc i"
  proof (intro allI impI)
    fix i assume i: "Suc i < length xs"
    then have "xs ! i = - xr + real i * dx" and "xs ! Suc i = - xr + real (Suc i) * dx"
      using xi lxs by simp_all
    then show "xs ! i < xs ! Suc i" using \<open>0 < dx\<close> by (simp add: algebra_simps)
  qed
  have ok: "CubicHermiteSpline_init (map Fin xs) (map Fin ys) (map Fin ds)
           = Inr (CubicHermiteSpline (map Fin xs) (map Fin ys) (map Fin ds))"
    using CubicHermiteSpline_init_Fin[of xs ys ds] assms(1) lxs lys lds inc by simp
  have res': "SplineWrapper_spline (map Fin ss) (Fin xr)
        = Inr (Fin dx, CubicHermiteSpline (map Fin xs) (map Fin ys) (map Fin ds))"
    by (simp add: res ok)
  show ?thesis
    apply (rule exI[of _ dx], rule exI[of _ xs], rule exI[of _ ys], rule exI[of _ ds])
    apply (intro conjI res' lxs lys lds dx xi di mean yi ym)
    done
qed

lemma SplineWrapper_spline_example:
  "SplineWrapper_spline (map Fin [0, 1, 0]) (Fin 3)
     = Inr (Fin 3, CubicHermiteSpline (map Fin [- 3, 0, 3]) (map Fin [- 9 / 5, 0, 27 / 5])
                     (map Fin [3 / 5, 9 / 5, 3 / 5]))"
  by (simp add: SplineWrapper_spline_def generate_spline_from_slope_list_def linspace_def
      getitem_def np_sum_def fsub_def Let_def upt_rec SPLINE_OFFSET_SLOPE_def
      CubicHermiteSpline_init_def isfinite_def np_diff_def fle_def)

theorem generate_spline_knots_witness:
  "2 \<le> length [0, 1, 0 :: real] \<and> (\<Sum>s\<leftarrow>[0, 1, 0 :: real]. s + 1 / 2) \<noteq> 0 \<and> (0 :: real) < 3
   \<and> SplineWrapper_spline (map Fin [0, 1, 0]) (Fin 3)
       = Inr (Fin 3, CubicHermiteSpline (map Fin [- 3, 0, 3]) (map Fin [- 9 / 5, 0, 27 / 5])
                       (map Fin [3 / 5, 9 / 5, 3 / 5]))
   \<and> sum_list [3 / 5, 9 / 5, 3 / 5 :: real] / 3 = 1"
  using generate_spline_knots[of "[0, 1, 0]" 3] SplineWrapper_spline_example
  by simp

text \<open>At the boundary of these hypotheses the construction raises: one slope has no
  second grid point to take the spacing from; offsets that sum to zero divide zero by
  zero, and the constructor refuses tangents that are not finite; with \<open>x_range \<le> 0\<close> the
  x-points do not increase, and the constructor refuses them.\<close>

lemma SplineWrapper_spline_one_slope: "SplineWrapper_spline [s] xr = Inl IndexError"
  by (simp add: SplineWrapper_spline_def generate_spline_from_slope_list_def linspace_def
      getitem_def)

lemma SplineWrapper_spline_zero_sum:
  "SplineWrapper_spline (map Fin [- 1 / 2, - 1 / 2]) (Fin 3) = Inl ValueError"
  by (simp add: SplineWrapper_spline_def generate_spline_from_slope_list_def linspace_def
      getitem_def np_sum_def fsub_def Let_def upt_rec SPLINE_OFFSET_SLOPE_def
      CubicHermiteSpline_init_def isfinite_def)

lemma SplineWrapper_spline_nonpositive_range:
  assumes "2 \<le> length ss" and "(\<Sum>s\<leftarrow>ss. s + 1 / 2) \<noteq> 0" and "xr \<le> 0"
  shows "SplineWrapper_spline (map Fin ss) (Fin xr) = Inl ValueError"
proof -
  let ?n = "length ss"
  from generate_spline_arguments[OF assms(1,2), of xr]
  obtain dx xs ys ds where
    res: "SplineWrapper_spline (map Fin ss) (Fin xr)
        = ebind (CubicHermiteSpline_init (map Fin xs) (map Fin ys) (map Fin ds))
            (\<lambda>spline. Inr (Fin dx, spline))"
    and lxs: "length xs = ?n"
    and dx: "dx = 2 * xr / real (?n - 1)"
    and xi: "\<forall>i<?n. xs ! i = - xr + real i * dx"
    by blast
  have "dx \<le> 0" using assms(1,3) by (simp add: dx divide_nonpos_pos)
  moreover have "0 < ?n" and "1 < ?n" using assms(1) by auto
  then have "xs ! 0 = - xr + real 0 * dx" and "xs ! 1 = - xr + real 1 * dx"
    using xi by blast+
  ultimately have "xs ! 1 \<le> xs ! 0" by simp
  then have "CubicHermiteSpline_init (map Fin xs) (map Fin ys) (map Fin ds) = Inl ValueError"
    using CubicHermiteSpline_init_not_increasing[of xs] assms(1) lxs by simp
  then show ?thesis by (simp add: res)
qed

section \<open>The normalisation of the triangular bins\<close>

lemma set_triu_indices: "set (triu_indices n) = {(r, c). r \<le> c \<and> c < n}"
proof -
  have "(a, b) \<in> set (triu_indices n) \<longleftrightarrow> a \<le> b \<and> b < n" for a b
    by (auto simp: triu_indices_def intro!: bexI[of _ a])
  then show ?thesis by auto
qed

lemma distinct_triu_indices: "distinct (triu_indices n)"
  unfolding triu_indices_def
proof (rule distinct_concat)
  have "inj_on (\<lambda>r. map (Pair r) [r..<n]) (set [0..<n])"
  proof (rule inj_onI)
    fix r r' assume r: "r \<in> set [0..<n]" and "r' \<in> set [0..<n]"
      and e: "map (Pair r) [r..<n] = map (Pair r') [r'..<n]"
    from r have "[r..<n] = r # [Suc r..<n]" by (simp add: upt_conv_Cons)
    with e show "r = r'" by (cases "[r'..<n]") auto
  qed
  then show "distinct (map (\<lambda>r. map (Pair r) [r..<n]) [0..<n])"
    by (simp add: distinct_map)
next
  fix ys assume "ys \<in> set (map (\<lambda>r. map (Pair r) [r..<n]) [0..<n])"
  then show "distinct ys" by (auto simp: distinct_map inj_on_def)
next
  fix ys zs
  assume "ys \<in> set (map (\<lambda>r. map (Pair r) [r..<n]) [0..<n])"
    and "zs \<in> set (map (\<lambda>r. map (Pair r) [r..<n]) [0..<n])" and "ys \<noteq> zs"
  then show "set ys \<inter> set zs = {}" by auto
qed

lemma sum_list_Suc: "(\<Sum>x\<leftarrow>xs. Suc (f x)) = (\<Sum>x\<leftarrow>xs. f x) + length xs"
  by (induction xs) simp_all

lemma sum_upto_rev: "2 * (\<Sum>r\<leftarrow>[0..<n]. n - r) = n * (n + 1)"
proof (induction n)
  case 0
  show ?case by simp
next
  case (Suc n)
  have "(\<Sum>r\<leftarrow>[0..<n]. Suc n - r) = (\<Sum>r\<leftarrow>[0..<n]. Suc (n - r))"
    by (rule arg_cong[where f = sum_list], rule map_cong) (auto simp: Suc_diff_le)
  also have "\<dots> = (\<Sum>r\<leftarrow>[0..<n]. n - r) + n"
    using sum_list_Suc[of "\<lambda>r. n - r" "[0..<n]"] by simp
  finally show ?case using Suc by simp
qed

lemma length_triu_indices: "length (triu_indices n) = n * (n + 1) div 2"
proof -
  have "length (triu_indices n) = (\<Sum>r\<leftarrow>[0..<n]. n - r)"
    by (simp add: triu_indices_def length_concat o_def)
  then show ?thesis using sum_upto_rev[of n] by simp
qed


lemma mat_set_shape:
  assumes "length m = n" and "\<forall>r<n. length (m ! r) = n"
  shows "length (mat_set m p v) = n \<and> (\<forall>r<n. length (mat_set m p v ! r) = n)"
  using assms
  by (cases "fst p < length m") (auto simp: mat_set_def nth_list_update)

lemma mat_get_set:
  assumes "length m = n" and "\<forall>r<n. length (m ! r) = n"
    and "fst p < n" and "snd p < n"
  shows "mat_get (mat_set m p v) q = (if q = p then v else mat_get m q)"
  using assms by (cases p; cases q) (auto simp: mat_set_def mat_get_def nth_list_update)

lemma fold_mat_set:
  assumes "length m = n" and "\<forall>r<n. length (m ! r) = n"
    and "distinct (map fst pvs)" and "\<forall>p \<in> fst ` set pvs. fst p < n \<and> snd p < n"
  shows "length (fold (\<lambda>(p, v) m1. mat_set m1 p v) pvs m) = n
       \<and> (\<forall>r<n. length (fold (\<lambda>(p, v) m1. mat_set m1 p v) pvs m ! r) = n)
       \<and> (\<forall>q. mat_get (fold (\<lambda>(p, v) m1. mat_set m1 p v) pvs m) q
               = (case map_of pvs q of Some v \<Rightarrow> v | None \<Rightarrow> mat_get m q))"
  using assms
proof (induction pvs arbitrary: m)
  case Nil
  then show ?case by simp
next
  case (Cons pv pvs)
  obtain p v where pv: "pv = (p, v)" by (cases pv)
  let ?m = "mat_set m p v"
  have sh: "length ?m = n" "\<forall>r<n. length (?m ! r) = n"
    using mat_set_shape[OF Cons.prems(1,2)] by auto
  have pr: "fst p < n" "snd p < n" using Cons.prems(4) pv by auto
  have IH: "length (fold (\<lambda>(p, v) m1. mat_set m1 p v) pvs ?m) = n
       \<and> (\<forall>r<n. length (fold (\<lambda>(p, v) m1. mat_set m1 p v) pvs ?m ! r) = n)
       \<and> (\<forall>q. mat_get (fold (\<lambda>(p, v) m1. mat_set m1 p v) pvs ?m) q
               = (case map_of pvs q of Some v \<Rightarrow> v | None \<Rightarrow> mat_get ?m q))"
    using Cons.prems(3,4) by (intro Cons.IH sh) auto
  have none: "map_of pvs p = None"
    using Cons.prems(3) pv by (simp add: map_of_eq_None_iff)
  show ?case
    using IH none mat_get_set[OF Cons.prems(1,2) pr]
    by (auto simp: pv split: option.splits)
qed

lemma fold_halve:
  assumes "length m = n" and "\<forall>r<n. length (m ! r) = n"
    and "distinct js" and "\<forall>i \<in> set js. i < n"
  shows "length (fold (\<lambda>i m1. mat_set m1 (i, i) (fmul (mat_get m1 (i, i)) (Fin (1 / 2)))) js m) = n
       \<and> (\<forall>r<n. length (fold (\<lambda>i m1. mat_set m1 (i, i) (fmul (mat_get m1 (i, i)) (Fin (1 / 2)))) js m ! r) = n)
       \<and> (\<forall>r c. mat_get (fold (\<lambda>i m1. mat_set m1 (i, i) (fmul (mat_get m1 (i, i)) (Fin (1 / 2)))) js m) (r, c)
               = (if r = c \<and> r \<in> set js then fmul (mat_get m (r, r)) (Fin (1 / 2))
                  else mat_get m (r, c)))"
  using assms
proof (induction js arbitrary: m)
  case Nil
  then show ?case by simp
next
  case (Cons j js)
  let ?m = "mat_set m (j, j) (fmul (mat_get m (j, j)) (Fin (1 / 2)))"
  have sh: "length ?m = n" "\<forall>r<n. length (?m ! r) = n"
    using mat_set_shape[OF Cons.prems(1,2)] by auto
  have jn: "fst (j, j) < n" "snd (j, j) < n" using Cons.prems(4) by auto
  have IH: "length (fold (\<lambda>i m1. mat_set m1 (i, i) (fmul (mat_get m1 (i, i)) (Fin (1 / 2)))) js ?m) = n
       \<and> (\<forall>r<n. length (fold (\<lambda>i m1. mat_set m1 (i, i) (fmul (mat_get m1 (i, i)) (Fin (1 / 2)))) js ?m ! r) = n)
       \<and> (\<forall>r c. mat_get (fold (\<lambda>i m1. mat_set m1 (i, i) (fmul (mat_get m1 (i, i)) (Fin (1 / 2)))) js ?m) (r, c)
               = (if r = c \<and> r \<in> set js then fmul (mat_get ?m (r, r)) (Fin (1 / 2))
                  else mat_get ?m (r, c)))"
    using Cons.prems(3,4) by (intro Cons.IH sh) auto
  show ?case
    using IH Cons.prems(3) mat_get_set[OF Cons.prems(1,2) jn]
    by auto
qed


lemma sum_list_concat_real: "sum_list (concat xss) = (\<Sum>xs\<leftarrow>xss. sum_list xs)"
  for xss :: "real list list"
  by (induction xss) simp_all

lemma np_sum_square:
  assumes "length m = n" and "\<forall>r<n. length (m ! r) = n"
    and "\<forall>r<n. \<forall>c<n. mat_get m (r, c) = Fin (F (r, c))"
  shows "np_sum (concat m) = Fin (\<Sum>r<n. \<Sum>c<n. F (r, c))"
proof -
  have "m = map (\<lambda>r. map (\<lambda>c. Fin (F (r, c))) [0..<n]) [0..<n]"
    using assms by (auto simp: mat_get_def intro!: nth_equalityI)
  then have "concat m = map Fin (concat (map (\<lambda>r. map (\<lambda>c. F (r, c)) [0..<n]) [0..<n]))"
    by (simp add: map_concat o_def)
  then have "np_sum (concat m) = Fin (sum_list (concat (map (\<lambda>r. map (\<lambda>c. F (r, c)) [0..<n]) [0..<n])))"
    by (simp only: np_sum_Fin)
  also have "sum_list (concat (map (\<lambda>r. map (\<lambda>c. F (r, c)) [0..<n]) [0..<n]))
               = (\<Sum>r<n. \<Sum>c<n. F (r, c))"
    by (simp add: sum_list_concat_real o_def interv_sum_list_conv_sum_set_nat atLeast0LessThan)
  finally show ?thesis .
qed

lemma sum_triangle_reindex:
  fixes h :: "nat \<times> nat \<Rightarrow> real"
  assumes "length ws = length (triu_indices n)"
  shows "(\<Sum>r<n. \<Sum>c<n. h (r, c) *
            (case map_of (zip (triu_indices n) ws) (r, c) of Some w \<Rightarrow> w | None \<Rightarrow> 0))
         = (\<Sum>k<length ws. ws ! k * h (triu_indices n ! k))"
proof -
  let ?idx = "triu_indices n"
  let ?G = "\<lambda>p. h p * (case map_of (zip ?idx ws) p of Some w \<Rightarrow> w | None \<Rightarrow> 0)"
  have sub: "set ?idx \<subseteq> {..<n} \<times> {..<n}" by (auto simp: set_triu_indices)
  have zero: "\<forall>p \<in> {..<n} \<times> {..<n} - set ?idx. ?G p = 0"
  proof
    fix p assume "p \<in> {..<n} \<times> {..<n} - set ?idx"
    then have "p \<notin> fst ` set (zip ?idx ws)" by (auto dest: set_zip_leftD)
    then have "map_of (zip ?idx ws) p = None" by (simp add: map_of_eq_None_iff)
    then show "?G p = 0" by simp
  qed
  have "(\<Sum>r<n. \<Sum>c<n. ?G (r, c)) = sum ?G ({..<n} \<times> {..<n})"
    by (simp add: sum.cartesian_product)
  also have "\<dots> = sum ?G (set ?idx)"
    by (rule sum.mono_neutral_right) (use sub zero in auto)
  also have "\<dots> = sum_list (map ?G ?idx)"
    by (simp add: sum_list_distinct_conv_sum_set distinct_triu_indices)
  also have "\<dots> = (\<Sum>k<length ?idx. ?G (?idx ! k))"
    by (simp add: sum_list_sum_nth atLeast0LessThan)
  also have "\<dots> = (\<Sum>k<length ws. ws ! k * h (?idx ! k))"
  proof (rule sum.cong)
    fix k assume "k \<in> {..<length ws}"
    then have "map_of (zip ?idx ws) (?idx ! k) = Some (ws ! k)"
      using assms by (intro map_of_zip_nth) (simp_all add: distinct_triu_indices)
    then show "?G (?idx ! k) = ws ! k * h (?idx ! k)" by simp
  qed (simp add: assms)
  finally show ?thesis .
qed


lemma map_of_zip_map_Fin:
  "map_of (zip xs (map Fin ws)) q = map_option Fin (map_of (zip xs ws) q)"
proof (induction xs arbitrary: ws)
  case Nil
  show ?case by simp
next
  case (Cons x xs)
  show ?case using Cons.IH by (cases ws) simp_all
qed

lemma compute_norm_Fin:
  fixes ws :: "real list" and n :: nat
  defines "T \<equiv> (\<Sum>k<length ws. ws ! k *
               (if fst (triu_indices n ! k) = snd (triu_indices n ! k) then 1 / 2 else 1))"
  assumes len: "length ws = length (triu_indices n)"
    and nz: "T \<noteq> 0" "dx1 \<noteq> 0" "dx2 \<noteq> 0"
  shows "compute_norm n (map Fin ws) (Fin dx1) (Fin dx2) = Inr (Fin (1 / T / dx1 / dx2))"
proof -
  let ?idx = "triu_indices n"
  let ?zeros = "replicate n (replicate n (Fin 0))"
  let ?L = "\<lambda>p. case map_of (zip ?idx ws) p of Some w \<Rightarrow> w | None \<Rightarrow> (0 :: real)"
  let ?h = "\<lambda>p :: nat \<times> nat. if fst p = snd p then 1 / 2 else (1 :: real)"
  define m1 where "m1 = fold (\<lambda>(p, v) m. mat_set m p v) (zip ?idx (map Fin ws)) ?zeros"
  define m2 where "m2 = fold (\<lambda>i m. mat_set m (i, i) (fmul (mat_get m (i, i)) (Fin (1 / 2)))) [0..<n] m1"
  have zs: "length ?zeros = n" "\<forall>r<n. length (?zeros ! r) = n" by simp_all
  have rng: "\<forall>p \<in> set ?idx. fst p < n \<and> snd p < n" by (auto simp: set_triu_indices)
  then have shp: "list_all (in_shape ?zeros) ?idx"
    by (auto simp: list_all_iff in_shape_def)
  have set1: "setitem_indices ?zeros ?idx (map Fin ws) = Inr m1"
    using shp len by (simp add: setitem_indices_def m1_def)
  have d: "distinct (map fst (zip ?idx (map Fin ws)))"
    using len by (simp add: distinct_triu_indices)
  have r: "\<forall>p \<in> fst ` set (zip ?idx (map Fin ws)). fst p < n \<and> snd p < n"
  proof
    fix p assume "p \<in> fst ` set (zip ?idx (map Fin ws))"
    then have "p \<in> set ?idx" by (auto dest: set_zip_leftD)
    with rng show "fst p < n \<and> snd p < n" by blast
  qed
  from fold_mat_set[OF zs d r]
  have m1s: "length m1 = n" "\<forall>r<n. length (m1 ! r) = n"
    and m1g: "\<And>q. mat_get m1 q = (case map_of (zip ?idx (map Fin ws)) q of
                                      Some v \<Rightarrow> v | None \<Rightarrow> mat_get ?zeros q)"
    unfolding m1_def by blast+
  have m1v: "mat_get m1 (r, c) = Fin (?L (r, c))" if "r < n" "c < n" for r c
    using that unfolding m1g map_of_zip_map_Fin
    by (cases "map_of (zip ?idx ws) (r, c)") (simp_all add: mat_get_def)
  have dj: "distinct [0..<n]" "\<forall>i \<in> set [0..<n]. i < n" by simp_all
  from fold_halve[OF m1s dj]
  have m2s: "length m2 = n" "\<forall>r<n. length (m2 ! r) = n"
    and m2g: "\<And>r c. mat_get m2 (r, c) = (if r = c \<and> r \<in> set [0..<n]
                        then fmul (mat_get m1 (r, r)) (Fin (1 / 2)) else mat_get m1 (r, c))"
    unfolding m2_def by blast+
  have m2v: "\<forall>r<n. \<forall>c<n. mat_get m2 (r, c) = Fin (?h (r, c) * ?L (r, c))"
    using m1v by (simp add: m2g)
  have "np_sum (concat m2) = Fin (\<Sum>r<n. \<Sum>c<n. ?h (r, c) * ?L (r, c))"
    by (rule np_sum_square[OF m2s m2v])
  also have "(\<Sum>r<n. \<Sum>c<n. ?h (r, c) * ?L (r, c)) = T"
    unfolding T_def by (rule sum_triangle_reindex[OF len])
  finally have total: "np_sum (concat m2) = Fin T" .
  show ?thesis
    unfolding compute_norm_def Let_def set1 ebind_Inr m2_def[symmetric] total
    using nz by simp
qed


lemma n_bins_1d_triangular:
  "nat \<lfloor>- 1 / 2 + sqrt (1 / 4 + 2 * real (n * (n + 1) div 2))\<rfloor> = n"
proof -
  have "even (n * (n + 1))" by simp
  then have "2 * (n * (n + 1) div 2) = n * (n + 1)" by (rule dvd_mult_div_cancel)
  then have "2 * real (n * (n + 1) div 2) = real (n * (n + 1))"
    by (metis of_nat_mult of_nat_numeral)
  then have "1 / 4 + 2 * real (n * (n + 1) div 2) = (real n + 1 / 2)\<^sup>2"
    by (simp add: power2_eq_square algebra_simps)
  then have "sqrt (1 / 4 + 2 * real (n * (n + 1) div 2)) = real n + 1 / 2"
    by (simp add: real_sqrt_unique)
  then show ?thesis by simp
qed

lemma concat_nth_offset:
  assumes "j < length xss" and "t < length (xss ! j)"
  shows "sum_list (map length (take j xss)) + t < length (concat xss)
       \<and> concat xss ! (sum_list (map length (take j xss)) + t) = xss ! j ! t"
  using assms
proof (induction xss arbitrary: j)
  case Nil
  then show ?case by simp
next
  case (Cons xs xss)
  show ?case
  proof (cases j)
    case 0
    with Cons.prems show ?thesis by (simp add: nth_append)
  next
    case (Suc j')
    with Cons.prems Cons.IH[of j'] show ?thesis
      by (simp add: nth_append add.assoc)
  qed
qed

lemma row_offset:
  assumes "j \<le> n"
  shows "(\<Sum>r\<leftarrow>[0..<j]. n - r) + j * (j + 1) div 2 = n * j + j"
  using assms
proof (induction j)
  case 0
  show ?case by simp
next
  case (Suc j)
  have "Suc j * (Suc j + 1) = j * (j + 1) + 2 * (j + 1)" by simp
  then have "Suc j * (Suc j + 1) div 2 = j * (j + 1) div 2 + (j + 1)" by simp
  with Suc show ?case by simp
qed

lemma triu_indices_flat_position:
  assumes "j \<le> i" and "i < n"
  shows "compute_flat_position n (i, j) < length (triu_indices n)
       \<and> triu_indices n ! compute_flat_position n (i, j) = (j, i)"
proof -
  let ?f = "\<lambda>r. map (Pair r) [r..<n]"
  let ?xss = "map ?f [0..<n]"
  have jn: "j < n" using assms by linarith
  have off: "sum_list (map length (take j ?xss)) = (\<Sum>r\<leftarrow>[0..<j]. n - r)"
    using jn by (simp add: take_map o_def)
  have ro: "(\<Sum>r\<leftarrow>[0..<j]. n - r) + j * (j + 1) div 2 = n * j + j"
    using row_offset[of j n] jn by simp
  have pos: "compute_flat_position n (i, j) = (\<Sum>r\<leftarrow>[0..<j]. n - r) + (i - j)"
    using ro assms(1) by (simp add: compute_flat_position_def)
  have t: "i - j < length (?xss ! j)" using assms jn by simp
  have j': "j < length ?xss" using jn by simp
  from concat_nth_offset[OF j' t]
  have lt: "sum_list (map length (take j ?xss)) + (i - j) < length (concat ?xss)"
    and eq: "concat ?xss ! (sum_list (map length (take j ?xss)) + (i - j)) = ?xss ! j ! (i - j)"
    by blast+
  have v: "?xss ! j ! (i - j) = (j, i)" using assms jn by simp
  show ?thesis
    unfolding triu_indices_def pos off[symmetric] using lt eq v by simp
qed

text \<open>
  Claim C8. For \<open>n (n + 1) / 2\<close> finite weights (\<open>n \<ge> 1\<close>) on \<open>[lo, hi]\<close> with
  \<open>lo \<noteq> hi\<close>, whose sum with the diagonal weights halved is not zero: the constructor
  finds \<open>n\<close> bins per axis of width \<open>(hi - lo) / n\<close>, and the normalised weights times
  the bin areas, half the area \<open>\<Delta>x1 \<Delta>x2\<close> for a bin of the diagonal, sum to \<open>1\<close> (in
  exact real arithmetic). The weight of the bin at grid position \<open>(i, j)\<close>, \<open>j \<le> i\<close>, is
  the one at \<open>compute_flat_position\<close>, which is where \<open>triu_indices\<close> lists \<open>(j, i)\<close>: the
  bins halved by \<open>compute_norm\<close> are the bins with \<open>i = j\<close>.
\<close>

theorem piecewise_constant_2d_normalized:
  fixes ws :: "real list" and n :: nat
  assumes "0 < n" and "length ws = n * (n + 1) div 2" and "lo \<noteq> hi"
    and "(\<Sum>k<length ws. ws ! k *
            (if fst (triu_indices n ! k) = snd (triu_indices n ! k) then 1 / 2 else 1)) \<noteq> 0"
  shows "\<exists>d wn.
      piecewise_constant_2d_distribution_normalized_init (Fin lo) (Fin hi) (map Fin ws) = Inr d
    \<and> n_bins_1d d = n
    \<and> delta_bin_x1 d = Fin ((hi - lo) / real n) \<and> delta_bin_x2 d = Fin ((hi - lo) / real n)
    \<and> pc2_norm d = Fin (1 / (\<Sum>k<length ws. ws ! k *
            (if fst (triu_indices n ! k) = snd (triu_indices n ! k) then 1 / 2 else 1))
          / ((hi - lo) / real n) / ((hi - lo) / real n))
    \<and> weights_normalized d = map Fin wn \<and> length wn = length ws
    \<and> (\<Sum>k<length ws. wn ! k *
           (if fst (triu_indices n ! k) = snd (triu_indices n ! k)
            then (hi - lo) / real n * ((hi - lo) / real n) / 2
            else (hi - lo) / real n * ((hi - lo) / real n))) = 1
    \<and> (\<forall>i j. j \<le> i \<and> i < n \<longrightarrow>
           compute_flat_position n (i, j) < length ws
         \<and> triu_indices n ! compute_flat_position n (i, j) = (j, i))"
proof -
  let ?dx = "(hi - lo) / real n"
  let ?h = "\<lambda>k. if fst (triu_indices n ! k) = snd (triu_indices n ! k) then 1 / 2 else (1 :: real)"
  let ?T = "\<Sum>k<length ws. ws ! k * ?h k"
  let ?nrm = "1 / ?T / ?dx / ?dx"
  have dx: "?dx \<noteq> 0" using assms(1,3) by simp
  have len: "length ws = length (triu_indices n)"
    using assms(2) by (simp add: length_triu_indices)
  have n1: "nat \<lfloor>- 1 / 2 + sqrt (1 / 4 + 2 * real (length ws))\<rfloor> = n"
    unfolding assms(2) by (rule n_bins_1d_triangular)
  have g1: "getitem (linspace (Fin lo) (Fin hi) (n + 1)) 1 = Inr (Fin (lo + ?dx))"
    using linspace_1[OF assms(1), of lo hi] assms(1) by (simp add: getitem_def linspace_length)
  have g0: "getitem (linspace (Fin lo) (Fin hi) (n + 1)) 0 = Inr (Fin lo)"
    using linspace_0[OF assms(1), of lo hi] by (simp add: getitem_def linspace_length)
  have sub: "fsub (Fin (lo + ?dx)) (Fin lo) = Fin ?dx" by (simp add: fsub_def)
  have cn: "compute_norm n (map Fin ws) (Fin ?dx) (Fin ?dx) = Inr (Fin ?nrm)"
    by (rule compute_norm_Fin[OF len assms(4) dx dx])
  let ?wn = "map (\<lambda>w. ?nrm * w) ws"
  let ?d = "\<lparr>pc2_dist_min = Fin lo, pc2_dist_max = Fin hi, pc2_n_bins = length ws, n_bins_1d = n,
            pc2_weights = map Fin ws, grid_x1 = linspace (Fin lo) (Fin hi) (n + 1),
            grid_x2 = linspace (Fin lo) (Fin hi) (n + 1),
            delta_bin_x1 = Fin ?dx, delta_bin_x2 = Fin ?dx, pc2_norm = Fin ?nrm,
            weights_normalized = map Fin ?wn\<rparr>"
  have init: "piecewise_constant_2d_distribution_normalized_init (Fin lo) (Fin hi) (map Fin ws) = Inr ?d"
    unfolding piecewise_constant_2d_distribution_normalized_init_def Let_def length_map n1
      g1 g0 ebind_Inr sub cn
    by (simp add: o_def)
  have "(\<Sum>k<length ws. ?wn ! k * (if fst (triu_indices n ! k) = snd (triu_indices n ! k)
            then ?dx * ?dx / 2 else ?dx * ?dx))
        = (\<Sum>k<length ws. ?nrm * ?dx * ?dx * (ws ! k * ?h k))"
    by (rule sum.cong) auto
  also have "\<dots> = ?nrm * ?dx * ?dx * ?T"
    by (simp add: sum_distrib_left)
  also have "\<dots> = 1"
    using assms(4) dx by simp
  finally have one: "(\<Sum>k<length ws. ?wn ! k * (if fst (triu_indices n ! k) = snd (triu_indices n ! k)
            then ?dx * ?dx / 2 else ?dx * ?dx)) = 1" .
  have flat: "\<forall>i j. j \<le> i \<and> i < n \<longrightarrow>
           compute_flat_position n (i, j) < length ws
         \<and> triu_indices n ! compute_flat_position n (i, j) = (j, i)"
    using triu_indices_flat_position[of _ _ n] len by simp
  show ?thesis
    apply (rule exI[of _ ?d], rule exI[of _ ?wn])
    using init one flat by simp
qed

lemma triu_indices_2: "triu_indices 2 = [(0, 0), (0, 1), (1, 1)]"
  by (simp add: triu_indices_def upt_rec)

theorem piecewise_constant_2d_normalized_witness:
  "(0 :: nat) < 2 \<and> length [1, 2, 3 :: real] = 2 * (2 + 1) div 2 \<and> (0 :: real) \<noteq> 2
   \<and> (\<Sum>k<length [1, 2, 3 :: real]. [1, 2, 3] ! k *
            (if fst (triu_indices 2 ! k) = snd (triu_indices 2 ! k) then 1 / 2 else 1)) = (4 :: real)
   \<and> (\<exists>d. piecewise_constant_2d_distribution_normalized_init (Fin 0) (Fin 2) (map Fin [1, 2, 3]) = Inr d
         \<and> n_bins_1d d = 2 \<and> pc2_norm d = Fin (1 / 4)
         \<and> weights_normalized d = map Fin [1 / 4, 1 / 2, 3 / 4])
   \<and> (1 / 4 :: real) * (1 / 2) + 1 / 2 * 1 + 3 / 4 * (1 / 2) = 1"
proof -
  have T: "(\<Sum>k<length [1, 2, 3 :: real]. [1, 2, 3] ! k *
            (if fst (triu_indices 2 ! k) = snd (triu_indices 2 ! k) then 1 / 2 else 1)) = (4 :: real)"
    by (simp add: triu_indices_2 lessThan_Suc numeral_3_eq_3)
  have "\<exists>d. piecewise_constant_2d_distribution_normalized_init (Fin 0) (Fin 2) (map Fin [1, 2, 3]) = Inr d
         \<and> n_bins_1d d = 2 \<and> pc2_norm d = Fin (1 / 4)
         \<and> weights_normalized d = map Fin [1 / 4, 1 / 2, 3 / 4]"
    using piecewise_constant_2d_normalized[of 2 "[1, 2, 3]" 0 2] T
    by (auto simp: piecewise_constant_2d_distribution_normalized_init_def Let_def ebind_eq_Inr)
  with T show ?thesis by simp
qed

section \<open>The sampler of conditional_2dimpdf\<close>

lemma linspace_Cons:
  assumes "3 \<le> n"
  shows "\<exists>rest. linspace (Fin a) (Fin b) n = Fin a # Fin (a + (b - a) / real (n - 1)) # rest
           \<and> rest \<noteq> [] \<and> last rest = Fin b"
proof -
  obtain m where n: "n = Suc (Suc (Suc m))"
    using assms by (metis Suc_le_D numeral_3_eq_3 Suc_le_mono)
  have u: "[0..<Suc (Suc m)] = 0 # Suc 0 # [Suc (Suc 0)..<Suc (Suc m)]"
    by (simp add: upt_conv_Cons del: upt_Suc)
  show ?thesis unfolding linspace_def n by (simp add: u fsub_def del: upt_Suc)
qed

text \<open>A query in the first cell of the table is interpolated between the first two
  entries.\<close>

lemma interp1_first_cell:
  assumes "a0 \<le> u" and "u < a1" and "length xr = length fr"
    and "\<not> fgt (Fin u) (last (Fin a0 # Fin a1 # xr))"
  shows "interp1 (Fin u) (Fin a0 # Fin a1 # xr) (Fin b0 # Fin b1 # fr)
           = Fin ((b1 - b0) / (a1 - a0) * (u - a0) + b0)"
proof -
  have j: "linear_search (Fin u) (Fin a0 # Fin a1 # xr) = 0"
    using assms(2) by (simp add: linear_search_def fge_def fle_def)
  have "a1 - a0 \<noteq> 0" using assms(1,2) by simp
  then show ?thesis
    using assms unfolding interp1_def j Let_def by (auto simp: isnan_def fsub_def)
qed

text \<open>\<open>cdf\<close> acts element by element when the kernel does.\<close>

lemma cdf_pointwise:
  assumes "\<And>xs. raw_log_cdf M self xs = Inr (map K xs)"
  shows "cdf M self xs =
     Inr (map (\<lambda>x. fexp (if fgt x (maxval self) then Fin 0
                          else if flt x (minval self) then NInf else K x)) xs)"
  by (simp add: cdf_def log_cdf_def assms check_bound_cdf_eq zip_map2 split_def o_def
      zip_same_conv_map)

lemma PL_1_10_m2_init: "PowerLaw_init (Fin 1) (Fin 10) (Fin (- 2)) = Inr PL_1_10_m2"
  by (simp add: PowerLaw_init_def PL_normfact_def fsub_def PL_1_10_m2_def powr_minus)

lemma PL_5_10_0_init: "PowerLaw_init (Fin 5) (Fin 10) (Fin 0) = Inr PL_5_10_0"
  by (simp add: PowerLaw_init_def PL_normfact_def fsub_def PL_5_10_0_def)

text \<open>The cdf of \<open>PowerLaw(1., 10., -2.)\<close> on its support is \<open>(1 - 1/x) * 10/9\<close>.\<close>

lemma PL_1_10_m2_cdf:
  "\<exists>c. (\<forall>xs. cdf PowerLaw_methods PL_1_10_m2 xs = Inr (map c xs))
      \<and> (\<forall>x. 1 \<le> x \<and> x \<le> 10 \<longrightarrow> c (Fin x) = Fin ((1 - 1 / x) * (10 / 9)))"
proof -
  let ?K = "\<lambda>xi. flog (fdiv (fdiv (fsub (fpow xi (Fin (- 1))) (Fin 1)) (Fin (- 1))) (Fin (9 / 10)))"
  let ?c = "\<lambda>x. fexp (if fgt x (maxval PL_1_10_m2) then Fin 0
                        else if flt x (minval PL_1_10_m2) then NInf else ?K x)"
  have raw: "raw_log_cdf PowerLaw_methods PL_1_10_m2 xs = Inr (map ?K xs)" for xs
    by (simp add: PowerLaw_methods_def PowerLaw_raw_log_cdf_def PL_1_10_m2_def)
  have all: "\<forall>xs. cdf PowerLaw_methods PL_1_10_m2 xs = Inr (map ?c xs)"
    using cdf_pointwise[of PowerLaw_methods PL_1_10_m2 ?K, OF raw] by blast
  have val: "?c (Fin x) = Fin ((1 - 1 / x) * (10 / 9))" if "1 \<le> x" "x \<le> 10" for x
  proof (cases "x = 1")
    case True
    then show ?thesis by (simp add: PL_1_10_m2_def fgt_def fsub_def)
  next
    case False
    with that have x: "1 < x" by simp
    then have p: "x powr (- 1) = 1 / x" by (simp add: powr_minus inverse_eq_divide)
    have "0 < 1 - 1 / x" using x by simp
    then have "0 < (1 - 1 / x) * 10 / 9" by simp
    then show ?thesis
      using x that p by (simp add: PL_1_10_m2_def fgt_def fsub_def algebra_simps)
  qed
  show ?thesis using all val by blast
qed

text \<open>
  Claim C3. \<open>sample\<close> can return a pair with \<open>x1 < x2\<close>. With
  \<open>pdf1 = pdf2 = PowerLaw(1., 10., -2.)\<close> and the draws \<open>randomcdf1 = [5/10008]\<close>,
  \<open>randomcdf2 = [4447/4448]\<close> (both in \<open>[0, 1)\<close>), the sampler returns
  \<open>x1 = 2223/2222\<close> and \<open>x2 = 9883459/9879012\<close>, and \<open>x1 < x2\<close>: the inverse of the
  cdf is read from a table of 10000 points by linear interpolation, and the chord of the
  concave cdf lies below the cdf that rescales the second draw.
\<close>

theorem conditional_2dimpdf_sample_violates_order:
  "conditional_2dimpdf_sample example_store_m2 (conditional_2dimpdf_init 0 1)
       [Fin (5 / 10008)] [Fin (4447 / 4448)]
     = Inr ([Fin (2223 / 2222)], [Fin (9883459 / 9879012)])
   \<and> flt (Fin (2223 / 2222)) (Fin (9883459 / 9879012))"
proof -
  obtain c where call: "\<And>xs. cdf PowerLaw_methods PL_1_10_m2 xs = Inr (map c xs)"
    and cval: "\<And>x. 1 \<le> x \<Longrightarrow> x \<le> 10 \<Longrightarrow> c (Fin x) = Fin ((1 - 1 / x) * (10 / 9))"
    using PL_1_10_m2_cdf by blast
  obtain rest where ls: "linspace (Fin 1) (Fin 10) 10000 = Fin 1 # Fin (1112 / 1111) # rest"
    and rne: "rest \<noteq> []" and rl: "last rest = Fin 10"
    using linspace_Cons[of 10000 1 10] by auto
  have mv: "minval PL_1_10_m2 = Fin 1" "maxval PL_1_10_m2 = Fin 10"
    by (simp_all add: PL_1_10_m2_def)
  have c0: "c (Fin 1) = Fin 0" using cval[of 1] by simp
  have c1: "c (Fin (1112 / 1111)) = Fin (5 / 5004)" using cval[of "1112 / 1111"] by simp
  have cl: "last (map c rest) = Fin 1" using rne rl cval[of 10] by (simp add: last_map)
  have cx: "c (Fin (2223 / 2222)) = Fin (10 / 20007)" using cval[of "2223 / 2222"] by simp
  have nf: "\<not> fgt (Fin u) (last (Fin 0 # Fin (5 / 5004) # map c rest))" if "u \<le> 1" for u
    using rne cl that by (simp add: fgt_def)
  have i1: "interp1 (Fin (5 / 10008)) (Fin 0 # Fin (5 / 5004) # map c rest)
              (Fin 1 # Fin (1112 / 1111) # rest) = Fin (2223 / 2222)"
    using interp1_first_cell[of 0 "5 / 10008" "5 / 5004" "map c rest" rest 1 "1112 / 1111"]
      nf[of "5 / 10008"]
    by simp
  have i2: "interp1 (Fin (22235 / 44495568)) (Fin 0 # Fin (5 / 5004) # map c rest)
              (Fin 1 # Fin (1112 / 1111) # rest) = Fin (9883459 / 9879012)"
    using interp1_first_cell[of 0 "22235 / 44495568" "5 / 5004" "map c rest" rest 1 "1112 / 1111"]
      nf[of "22235 / 44495568"]
    by simp
  have "conditional_2dimpdf_sample example_store_m2 (conditional_2dimpdf_init 0 1)
       [Fin (5 / 10008)] [Fin (4447 / 4448)]
     = Inr ([Fin (2223 / 2222)], [Fin (9883459 / 9879012)])"
    unfolding conditional_2dimpdf_sample_def example_store_m2_def conditional_2dimpdf_init_def
    by (simp add: Let_def call mv ls interp_def c0 c1 i1 cx broadcast2_def i2)
  then show ?thesis by simp
qed

text \<open>The log-density of the same 2D object at the returned pair is \<open>-inf\<close>: the sampler
  has returned a point outside the support of the distribution it samples.\<close>

lemma conditional_2dimpdf_sample_outside_support:
  "conditional_2dimpdf_log_pdf example_store_m2 (conditional_2dimpdf_init 0 1)
       [Fin (2223 / 2222)] [Fin (9883459 / 9879012)] = Inr [NInf]"
  by (simp add: conditional_2dimpdf_log_pdf_def conditional_2dimpdf_init_def example_store_m2_def
      PL_1_10_m2_def PowerLaw_methods_def PowerLaw_raw_log_pdf_def PowerLaw_raw_log_cdf_def
      log_pdf_def log_cdf_def check_bound_pdf_def check_bound_cdf_def setitem_mask_def
      conditional_2dimpdf_check_bound_pdf_def broadcast2_def)

text \<open>A second way to the same outcome, which does not depend on the interpolation: when
  \<open>pdf2\<close> starts above a sampled \<open>x1\<close>, \<open>cdf2(x1)\<close> is 0 and \<open>x2\<close> is the lower end of
  \<open>pdf2\<close>. With \<open>pdf1 = PowerLaw(1., 10., 0.)\<close> and \<open>pdf2 = PowerLaw(5., 10., 0.)\<close> the
  draws \<open>1/19998\<close> and \<open>1/2\<close> give \<open>x1 = 2223/2222\<close> and \<open>x2 = 5\<close>.\<close>

lemma PowerLaw_flat_cdf:
  assumes "0 < mn" and "mn < mx"
    and "p = \<lparr>minval = Fin mn, maxval = Fin mx, minpl = Fin mn, maxpl = Fin mx,
               alpha = Fin 0, norm_fact = Fin (mx - mn)\<rparr>"
  shows "\<exists>c. (\<forall>xs. cdf PowerLaw_methods p xs = Inr (map c xs))
      \<and> (\<forall>x. mn \<le> x \<and> x \<le> mx \<longrightarrow> c (Fin x) = Fin ((x - mn) / (mx - mn)))
      \<and> (\<forall>x. x < mn \<longrightarrow> c (Fin x) = Fin 0)"
proof -
  let ?K = "\<lambda>xi. flog (fdiv (fdiv (fsub (fpow xi (Fin 1)) (fpow (Fin mn) (Fin 1))) (Fin 1))
                     (Fin (mx - mn)))"
  let ?c = "\<lambda>x. fexp (if fgt x (maxval p) then Fin 0
                        else if flt x (minval p) then NInf else ?K x)"
  have raw: "raw_log_cdf PowerLaw_methods p xs = Inr (map ?K xs)" for xs
    by (simp add: PowerLaw_methods_def PowerLaw_raw_log_cdf_def assms(3))
  have all: "\<forall>xs. cdf PowerLaw_methods p xs = Inr (map ?c xs)"
    using cdf_pointwise[of PowerLaw_methods p ?K, OF raw] by blast
  have d: "mx - mn \<noteq> 0" using assms(2) by simp
  have val: "?c (Fin x) = Fin ((x - mn) / (mx - mn))" if "mn \<le> x" "x \<le> mx" for x
  proof (cases "x = mn")
    case True
    then show ?thesis using assms(1,2) d by (simp add: assms(3) fgt_def fsub_def fpow_pos)
  next
    case False
    with that have x: "mn < x" by simp
    then have "0 < (x - mn) / (mx - mn)" using assms(2) by simp
    then show ?thesis
      using x that assms(1,2) d by (simp add: assms(3) fgt_def fsub_def fpow_pos)
  qed
  have low: "?c (Fin x) = Fin 0" if "x < mn" for x
    using that assms(2) by (simp add: assms(3) fgt_def)
  show ?thesis using all val low by blast
qed

lemma conditional_2dimpdf_sample_disjoint_support:
  "conditional_2dimpdf_sample example_store_5 (conditional_2dimpdf_init 0 1)
       [Fin (1 / 19998)] [Fin (1 / 2)] = Inr ([Fin (2223 / 2222)], [Fin 5])"
proof -
  obtain c1 where call1: "\<And>xs. cdf PowerLaw_methods PL_1_10_0 xs = Inr (map c1 xs)"
    and c1val: "\<And>x. 1 \<le> x \<Longrightarrow> x \<le> 10 \<Longrightarrow> c1 (Fin x) = Fin ((x - 1) / 9)"
    using PowerLaw_flat_cdf[of 1 10 PL_1_10_0] by (auto simp: PL_1_10_0_def)
  obtain c2 where call2: "\<And>xs. cdf PowerLaw_methods PL_5_10_0 xs = Inr (map c2 xs)"
    and c2val: "\<And>x. 5 \<le> x \<Longrightarrow> x \<le> 10 \<Longrightarrow> c2 (Fin x) = Fin ((x - 5) / 5)"
    and c2low: "\<And>x. x < 5 \<Longrightarrow> c2 (Fin x) = Fin 0"
    using PowerLaw_flat_cdf[of 5 10 PL_5_10_0] by (auto simp: PL_5_10_0_def)
  obtain r1 where ls1: "linspace (Fin 1) (Fin 10) 10000 = Fin 1 # Fin (1112 / 1111) # r1"
    and r1ne: "r1 \<noteq> []" and r1l: "last r1 = Fin 10"
    using linspace_Cons[of 10000 1 10] by auto
  obtain r2 where ls2: "linspace (Fin 5) (Fin 10) 10000 = Fin 5 # Fin (50000 / 9999) # r2"
    and r2ne: "r2 \<noteq> []" and r2l: "last r2 = Fin 10"
    using linspace_Cons[of 10000 5 10] by auto
  have mv: "minval PL_1_10_0 = Fin 1" "maxval PL_1_10_0 = Fin 10"
    "minval PL_5_10_0 = Fin 5" "maxval PL_5_10_0 = Fin 10"
    by (simp_all add: PL_1_10_0_def PL_5_10_0_def)
  have c10: "c1 (Fin 1) = Fin 0" using c1val[of 1] by simp
  have c11: "c1 (Fin (1112 / 1111)) = Fin (1 / 9999)" using c1val[of "1112 / 1111"] by simp
  have c20: "c2 (Fin 5) = Fin 0" using c2val[of 5] by simp
  have c21: "c2 (Fin (50000 / 9999)) = Fin (1 / 9999)" using c2val[of "50000 / 9999"] by simp
  have cx: "c2 (Fin (2223 / 2222)) = Fin 0" using c2low[of "2223 / 2222"] by simp
  have nf1: "\<not> fgt (Fin (1 / 19998)) (last (Fin 0 # Fin (1 / 9999) # map c1 r1))"
    using r1ne r1l c1val[of 10] by (simp add: fgt_def last_map)
  have nf2: "\<not> fgt (Fin 0) (last (Fin 0 # Fin (1 / 9999) # map c2 r2))"
    using r2ne r2l c2val[of 10] by (simp add: fgt_def last_map)
  have i1: "interp1 (Fin (1 / 19998)) (Fin 0 # Fin (1 / 9999) # map c1 r1)
              (Fin 1 # Fin (1112 / 1111) # r1) = Fin (2223 / 2222)"
    using interp1_first_cell[of 0 "1 / 19998" "1 / 9999" "map c1 r1" r1 1 "1112 / 1111"] nf1
    by simp
  have i2: "interp1 (Fin 0) (Fin 0 # Fin (1 / 9999) # map c2 r2)
              (Fin 5 # Fin (50000 / 9999) # r2) = Fin 5"
    using interp1_first_cell[of 0 0 "1 / 9999" "map c2 r2" r2 5 "50000 / 9999"] nf2
    by simp
  show ?thesis
    unfolding conditional_2dimpdf_sample_def example_store_5_def conditional_2dimpdf_init_def
    by (simp add: Let_def call1 call2 mv ls1 ls2 interp_def c10 c11 c20 c21 i1 cx broadcast2_def i2)
qed

end
